theory Spec2Isabelle
  imports Main
begin

section \<open>JavaScript values used by the handlers\<close>

text \<open>
  \<open>String.prototype.toLowerCase\<close> and \<open>String.prototype.trim\<close> belong to the
  JavaScript engine, not to this repository: full Unicode case folding, and the removal
  of every Unicode white-space and line-terminator character at both ends. The
  handlers take the two functions as a parameter \<open>js\<close>, so every general statement
  below holds for the functions the engine provides. Of a string the handlers use only
  equality and the test for the empty string.
\<close>

record js_strings =
  toLowerCase :: "string \<Rightarrow> string"
  trim :: "string \<Rightarrow> string"

text \<open>
  On strings all of whose characters are ASCII the two built-ins are the functions
  below: the letters \<open>A\<close>..\<open>Z\<close> are folded, and the characters removed at both ends
  are space, tab, line feed, vertical tab, form feed and carriage return. They serve
  to evaluate the examples, whose strings are all ASCII.
\<close>

definition ascii_lower :: "char \<Rightarrow> char" where
  "ascii_lower c =
     (let n = (of_char c :: nat) in if 65 \<le> n \<and> n \<le> 90 then char_of (n + 32) else c)"

definition ascii_blank :: "char \<Rightarrow> bool" where
  "ascii_blank c = (let n = (of_char c :: nat) in n = 32 \<or> (9 \<le> n \<and> n \<le> 13))"

definition ascii_js :: js_strings where
  "ascii_js =
     \<lparr>toLowerCase = map ascii_lower,
      trim = (\<lambda>s. rev (dropWhile ascii_blank (rev (dropWhile ascii_blank s))))\<rparr>"

text \<open>
  A JavaScript \<open>Set\<close> keeps its elements in first-insertion order and ignores an
  element it already holds. It is a list without duplicates; \<open>size\<close> is its length,
  \<open>has\<close> is membership, \<open>Array.from\<close> and the spread are the list itself.
\<close>

definition set_add :: "'a \<Rightarrow> 'a list \<Rightarrow> 'a list" where
  "set_add x s = (if x \<in> set s then s else s @ [x])"

definition new_Set :: "'a list \<Rightarrow> 'a list" where
  "new_Set xs = fold set_add xs []"

section \<open>The relational store\<close>

text \<open>
  Dates (\<open>DATE\<close> columns, \<open>YYYY-MM-DD\<close>) are day numbers counted from 1970-01-01,
  instants (\<open>TIMESTAMP\<close> columns and JavaScript \<open>Date\<close> objects) are milliseconds
  since the epoch. A column that may hold \<open>NULL\<close> is an option. Columns the store
  generates for member rows and that no modelled handler reads (\<open>id\<close>, \<open>added_at\<close>)
  are left out.
\<close>

record user =
  user_id :: int
  email :: string

record project =
  project_id :: int
  project_uuid :: string
  name :: string
  description :: "string option"
  status :: string
  priority :: string
  start_date :: "int option"
  end_date :: "int option"
  owner_id :: int
  created_at :: int

record project_member =
  m_project_id :: "int option"
  m_project_uuid :: string
  m_user_id :: "int option"
  member_email :: string
  role :: string

record task =
  task_id :: int
  t_project_uuid :: string
  title :: string
  t_description :: "string option"
  t_status :: string
  t_priority :: string
  due_date :: "int option"
  t_created_at :: int

record task_assignment =
  a_task_id :: int
  a_user_id :: int
  assigned_at :: int

record store =
  users :: "user list"
  projects :: "project list"
  project_members :: "project_member list"
  tasks :: "task list"
  task_assignments :: "task_assignment list"

text \<open>
  Every call to the store either returns an error or its rows. Which calls fail is
  a parameter of each handler: a predicate on the call sites below. A failed call
  leaves the store unchanged.
\<close>

datatype store_call =
    DashOwnedProjects | DashMemberProjects | DashAllProjects | DashAllMembers
  | DashUsersByEmail | DashRecentTasks | DashUpcomingTasks | DashAllTasks
  | CalOwnedProjects | CalMemberProjects | CalAssignedTasks | CalProjectTasks
  | BulkProject | BulkMemberRole | BulkExistingMembers | BulkUsers | BulkInsertMembers
  | BulkInviter
  | DelFetchProjects | DelDeleteProjects
  | CrInsertProject | CrUsers | CrInsertMembers | CrCompensate | CrInviter

type_synonym faults = "store_call \<Rightarrow> bool"

datatype http_error = HttpError nat string | StoreError nat

text \<open>The user the authentication middleware attaches to the request.\<close>

record clerk_user =
  userId :: int
  userEmail :: string

text \<open>\<open>req.user?.userId\<close>: undefined without a user; a falsy id (0) is rejected as well.\<close>

definition authenticated :: "clerk_user option \<Rightarrow> int option" where
  "authenticated u =
     (case u of None \<Rightarrow> None | Some cu \<Rightarrow> if userId cu = 0 then None else Some (userId cu))"

text \<open>SQL comparisons with \<open>NULL\<close> are never true.\<close>

definition sql_gte :: "int option \<Rightarrow> int \<Rightarrow> bool" where
  "sql_gte c v = (case c of None \<Rightarrow> False | Some x \<Rightarrow> v \<le> x)"

definition sql_lte :: "int option \<Rightarrow> int \<Rightarrow> bool" where
  "sql_lte c v = (case c of None \<Rightarrow> False | Some x \<Rightarrow> x \<le> v)"

section \<open>Dashboard: the visibility set\<close>

text \<open>
  \<open>getDashboardData\<close>, the two parallel reads and their union:
  \<^verbatim>\<open>[...new Set([...ownedProjectUuids, ...memberProjectUuids])]\<close>.
\<close>

definition dashboard_visibility :: "store \<Rightarrow> int \<Rightarrow> string list" where
  "dashboard_visibility db uid =
     (let ownedProjectUuids = map project_uuid (filter (\<lambda>p. owner_id p = uid) (projects db));
          memberProjectUuids =
            map m_project_uuid (filter (\<lambda>m. m_user_id m = Some uid) (project_members db))
      in new_Set (ownedProjectUuids @ memberProjectUuids))"

section \<open>JavaScript dates\<close>

text \<open>
  The server's time zone is a fixed offset \<open>tz\<close> in milliseconds east of UTC
  (local time = UTC + \<open>tz\<close>); daylight-saving changes are not modelled. One request
  reads the clock several times (\<open>new Date()\<close>); the model uses one instant \<open>now\<close>
  for all of them.
\<close>

record clock =
  now :: int
  tz :: int

definition day_ms :: int where
  "day_ms = 86400000"

text \<open>\<open>d.setHours(0, 0, 0, 0)\<close>: midnight, in the server's zone, of the local day of \<open>d\<close>.\<close>

definition setHours0 :: "int \<Rightarrow> int \<Rightarrow> int" where
  "setHours0 z t = ((t + z) div day_ms) * day_ms - z"

text \<open>\<open>d.toISOString().split("T")[0]\<close>: the UTC calendar date of \<open>d\<close>.\<close>

definition isoDate :: "int \<Rightarrow> int" where
  "isoDate t = t div day_ms"

text \<open>
  \<open>new Date(v)\<close> for a \<open>DATE\<close> column: a date-only string is midnight UTC of that day,
  \<open>null\<close> is the epoch.
\<close>

definition newDate :: "int option \<Rightarrow> int" where
  "newDate v = (case v of None \<Rightarrow> 0 | Some d \<Rightarrow> d * day_ms)"

text \<open>\<open>d.setDate(d.getDate() + n)\<close> under a fixed offset.\<close>

definition addDays :: "int \<Rightarrow> int \<Rightarrow> int" where
  "addDays t n = t + n * day_ms"

section \<open>Dashboard: \<open>getDashboardData\<close>\<close>

record project_summary =
  ps_project_id :: int
  ps_project_uuid :: string
  ps_name :: string

text \<open>
  A formatted task of the response: the task's own columns (\<open>title\<close> sent as
  \<open>name\<close>), the \<open>project_id\<close> looked up in \<open>projectsMap\<close>, and the project summary.
\<close>

record dashboard_task =
  dt_task :: task
  dt_project_id :: "int option"
  dt_project :: "project_summary option"

record dashboard_data =
  completedProjects :: nat
  totalProjects :: nat
  totalTeamMembers :: nat
  recentTasks :: "dashboard_task list"
  upcomingDeadlines :: "dashboard_task list"
  projectsByStatus :: "string \<rightharpoonup> nat"
  tasksByStatus :: "string \<rightharpoonup> nat"
  projectsByPriority :: "string \<rightharpoonup> nat"

definition empty_dashboard :: dashboard_data where
  "empty_dashboard =
     \<lparr>completedProjects = 0, totalProjects = 0, totalTeamMembers = 0, recentTasks = [],
      upcomingDeadlines = [], projectsByStatus = Map.empty, tasksByStatus = Map.empty,
      projectsByPriority = Map.empty\<rparr>"

text \<open>\<open>.in("project_uuid", allProjectUuids)\<close> on the three tables.\<close>

definition projects_in :: "store \<Rightarrow> string list \<Rightarrow> project list" where
  "projects_in db uuids = filter (\<lambda>p. project_uuid p \<in> set uuids) (projects db)"

definition members_in :: "store \<Rightarrow> string list \<Rightarrow> project_member list" where
  "members_in db uuids = filter (\<lambda>m. m_project_uuid m \<in> set uuids) (project_members db)"

definition tasks_in :: "store \<Rightarrow> string list \<Rightarrow> task list" where
  "tasks_in db uuids = filter (\<lambda>t. t_project_uuid t \<in> set uuids) (tasks db)"

text \<open>
  \<^verbatim>\<open>const endDate = new Date(project.end_date); endDate.setHours(0, 0, 0, 0);
  return endDate < today;\<close>
\<close>

definition completed_projects :: "clock \<Rightarrow> project list \<Rightarrow> project list" where
  "completed_projects clk allProjects =
     (let today = setHours0 (tz clk) (now clk)
      in filter (\<lambda>p. setHours0 (tz clk) (newDate (end_date p)) < today) allProjects)"

text \<open>
  The team-size estimate. \<open>usersByEmail\<close> is the result of the lookup
  \<open>.in("email", memberEmailsArray)\<close>; its error is not read, so a failed lookup is the
  empty list. The two sets filled by the loop over the members are built one after the
  other.
\<close>

definition unique_user_ids :: "project list \<Rightarrow> project_member list \<Rightarrow> int list" where
  "unique_user_ids allProjects allMembers =
     (let owners = fold (\<lambda>p s. if owner_id p \<noteq> 0 then set_add (owner_id p) s else s) allProjects []
      in fold (\<lambda>m s. case m_user_id m of
                        None \<Rightarrow> s
                      | Some n \<Rightarrow> if n \<noteq> 0 then set_add n s else s) allMembers owners)"

definition member_emails :: "js_strings \<Rightarrow> project_member list \<Rightarrow> string list" where
  "member_emails js allMembers =
     fold (\<lambda>m s. if member_email m \<noteq> [] then set_add (toLowerCase js (member_email m)) s else s)
       allMembers []"

definition users_by_email :: "store \<Rightarrow> bool \<Rightarrow> string list \<Rightarrow> user list" where
  "users_by_email db failed emails =
     (if failed then [] else filter (\<lambda>u. email u \<in> set emails) (users db))"

definition team_size :: "js_strings \<Rightarrow> store \<Rightarrow> bool \<Rightarrow> project list \<Rightarrow> project_member list \<Rightarrow> nat" where
  "team_size js db failed allProjects allMembers =
     (let uniqueUserIds = unique_user_ids allProjects allMembers;
          memberEmailsArray = member_emails js allMembers
      in if memberEmailsArray = [] then length uniqueUserIds
         else
           let usersByEmail = users_by_email db failed memberEmailsArray;
               uniqueUserIds' =
                 fold (\<lambda>u s. if user_id u \<noteq> 0 then set_add (user_id u) s else s)
                   usersByEmail uniqueUserIds;
               emailsWithAccounts = new_Set (map (\<lambda>u. toLowerCase js (email u)) usersByEmail);
               emailsWithoutAccounts =
                 filter (\<lambda>e. e \<notin> set emailsWithAccounts) memberEmailsArray
           in length uniqueUserIds' + length emailsWithoutAccounts)"

text \<open>
  The two task lists. \<open>.order(...)\<close> is a stable sort of the table order and
  \<open>.limit(10)\<close> keeps the first ten rows.
\<close>

definition recent_tasks_raw :: "store \<Rightarrow> clock \<Rightarrow> string list \<Rightarrow> task list" where
  "recent_tasks_raw db clk uuids =
     (let sevenDaysAgo = addDays (now clk) (- 7)
      in take 10 (sort_key (\<lambda>t. - t_created_at t)
           (filter (\<lambda>t. sevenDaysAgo \<le> t_created_at t) (tasks_in db uuids))))"

definition due_key :: "task \<Rightarrow> int" where
  "due_key t = (case due_date t of None \<Rightarrow> 0 | Some d \<Rightarrow> d)"

definition upcoming_tasks_raw :: "store \<Rightarrow> clock \<Rightarrow> string list \<Rightarrow> task list" where
  "upcoming_tasks_raw db clk uuids =
     (let today = setHours0 (tz clk) (now clk);
          fourteenDaysFromNow = addDays (now clk) 14
      in take 10 (sort_key due_key
           (filter (\<lambda>t. sql_lte (due_date t) (isoDate fourteenDaysFromNow)
                       \<and> sql_gte (due_date t) (isoDate today)
                       \<and> due_date t \<noteq> None) (tasks_in db uuids))))"

definition summary_of :: "project \<Rightarrow> project_summary" where
  "summary_of p =
     \<lparr>ps_project_id = project_id p, ps_project_uuid = project_uuid p, ps_name = name p\<rparr>"

definition projects_map :: "project list \<Rightarrow> (string \<rightharpoonup> project_summary)" where
  "projects_map ps = fold (\<lambda>p m. m(project_uuid p \<mapsto> summary_of p)) ps Map.empty"

definition format_task :: "(string \<rightharpoonup> project_summary) \<Rightarrow> task \<Rightarrow> dashboard_task" where
  "format_task projectsMap t =
     \<lparr>dt_task = t,
      dt_project_id = map_option ps_project_id (projectsMap (t_project_uuid t)),
      dt_project = projectsMap (t_project_uuid t)\<rparr>"

text \<open>\<open>counts[k] = (counts[k] || 0) + 1\<close>\<close>

definition count_up :: "(string \<rightharpoonup> nat) \<Rightarrow> string \<Rightarrow> (string \<rightharpoonup> nat)" where
  "count_up counts k = counts(k \<mapsto> Suc (case counts k of None \<Rightarrow> 0 | Some c \<Rightarrow> c))"

definition getDashboardData ::
  "js_strings \<Rightarrow> store \<Rightarrow> faults \<Rightarrow> clock \<Rightarrow> clerk_user option \<Rightarrow> http_error + dashboard_data" where
  "getDashboardData js db fails clk u =
     (case authenticated u of
        None \<Rightarrow> Inl (HttpError 401 ''User not authenticated'')
      | Some uid \<Rightarrow>
          if fails DashOwnedProjects \<or> fails DashMemberProjects
          then Inl (HttpError 500 ''Failed to fetch user projects'')
          else
            let allProjectUuids = dashboard_visibility db uid in
            if allProjectUuids = [] then Inr empty_dashboard
            else if fails DashAllProjects then Inl (HttpError 500 ''Failed to fetch projects'')
            else
              let allProjects = projects_in db allProjectUuids;
                  completed = completed_projects clk allProjects in
              if fails DashAllMembers then Inl (HttpError 500 ''Failed to fetch team members'')
              else
                let allMembers = members_in db allProjectUuids;
                    team = team_size js db (fails DashUsersByEmail) allProjects allMembers in
                if fails DashRecentTasks then Inl (HttpError 500 ''Failed to fetch recent tasks'')
                else if fails DashUpcomingTasks
                then Inl (HttpError 500 ''Failed to fetch upcoming deadlines'')
                else
                  let allTasks = (if fails DashAllTasks then [] else tasks_in db allProjectUuids);
                      projectsMap = projects_map allProjects
                  in Inr
                    \<lparr>completedProjects = length completed,
                     totalProjects = length allProjects,
                     totalTeamMembers = team,
                     recentTasks =
                       map (format_task projectsMap) (recent_tasks_raw db clk allProjectUuids),
                     upcomingDeadlines =
                       map (format_task projectsMap) (upcoming_tasks_raw db clk allProjectUuids),
                     projectsByStatus = fold (\<lambda>p m. count_up m (status p)) allProjects Map.empty,
                     tasksByStatus = fold (\<lambda>t m. count_up m (t_status t)) allTasks Map.empty,
                     projectsByPriority =
                       fold (\<lambda>p m. count_up m (priority p)) allProjects Map.empty\<rparr>)"

section \<open>Calendar: \<open>getCalendarData\<close>\<close>

text \<open>
  The query parameters \<open>start_date\<close> and \<open>end_date\<close>: the window applies only when
  both are present (\<open>if (start_date && end_date)\<close>).
\<close>

definition date_window :: "int option \<Rightarrow> int option \<Rightarrow> (int \<times> int) option" where
  "date_window start_q end_q =
     (case start_q of
        None \<Rightarrow> None
      | Some s \<Rightarrow> (case end_q of None \<Rightarrow> None | Some e \<Rightarrow> Some (s, e)))"

text \<open>
  Owned projects: \<open>.eq("owner_id", userId)\<close>, and with a window
  \<open>.gte("end_date", start_date).lte("start_date", end_date)\<close>.
\<close>

definition cal_owned_projects :: "store \<Rightarrow> int \<Rightarrow> (int \<times> int) option \<Rightarrow> project list" where
  "cal_owned_projects db uid w =
     filter (\<lambda>p. owner_id p = uid \<and>
                 (case w of
                    None \<Rightarrow> True
                  | Some (s, e) \<Rightarrow> sql_gte (end_date p) s \<and> sql_lte (start_date p) e))
       (projects db)"

text \<open>
  Member rows of the user, each with its embedded project
  \<open>projects:project_uuid (...)\<close>: the project row of that UUID, or \<open>null\<close>.
\<close>

definition cal_member_projects ::
  "store \<Rightarrow> int \<Rightarrow> (project_member \<times> project option) list" where
  "cal_member_projects db uid =
     map (\<lambda>m. (m, find (\<lambda>p. project_uuid p = m_project_uuid m) (projects db)))
       (filter (\<lambda>m. m_user_id m = Some uid) (project_members db))"

definition calendar_visibility :: "store \<Rightarrow> int \<Rightarrow> (int \<times> int) option \<Rightarrow> string list" where
  "calendar_visibility db uid w =
     (let ownedProjectUuids = map project_uuid (cal_owned_projects db uid w);
          memberProjectUuids =
            List.map_filter (\<lambda>(m, pr). map_option project_uuid pr) (cal_member_projects db uid)
      in new_Set (ownedProjectUuids @ memberProjectUuids))"

record calendar_project =
  cp_project :: project
  cp_role :: string
  isOwner :: bool

record calendar_task =
  ct_task :: task
  ct_projects :: "project_summary option"
  ct_assigned_at :: "int option"
  isAssigned :: bool

record calendar_data =
  cal_projects :: "calendar_project list"
  cal_tasks :: "calendar_task list"
  sum_totalProjects :: nat
  sum_ownedProjects :: nat
  sum_memberProjects :: nat
  sum_totalTasks :: nat
  sum_assignedTasks :: nat

definition empty_calendar :: calendar_data where
  "empty_calendar =
     \<lparr>cal_projects = [], cal_tasks = [], sum_totalProjects = 0, sum_ownedProjects = 0,
      sum_memberProjects = 0, sum_totalTasks = 0, sum_assignedTasks = 0\<rparr>"

text \<open>\<open>acc.findIndex(pred)\<close>, read only where an element satisfies \<open>pred\<close>.\<close>

definition findIndex :: "('a \<Rightarrow> bool) \<Rightarrow> 'a list \<Rightarrow> nat" where
  "findIndex pred xs = length (takeWhile (\<lambda>x. \<not> pred x) xs)"

text \<open>
  The body of both \<open>reduce\<close> calls, with the key (\<open>project_uuid\<close>, \<open>task_id\<close>) and the
  flag (\<open>isOwner\<close>, \<open>isAssigned\<close>) as parameters:
  \<^verbatim>\<open>const existing = acc.find((p) => p.key === x.key);
  if (!existing) { acc.push(x); }
  else if (x.flag) { const index = acc.findIndex((p) => p.key === x.key); acc[index] = x; }
  return acc;\<close>
\<close>

definition reduce_step :: "('a \<Rightarrow> 'k) \<Rightarrow> ('a \<Rightarrow> bool) \<Rightarrow> 'a \<Rightarrow> 'a list \<Rightarrow> 'a list" where
  "reduce_step key flag x acc =
     (case find (\<lambda>p. key p = key x) acc of
        None \<Rightarrow> acc @ [x]
      | Some existing \<Rightarrow>
          if flag x then acc[findIndex (\<lambda>p. key p = key x) acc := x] else acc)"

definition reduce_unique :: "('a \<Rightarrow> 'k) \<Rightarrow> ('a \<Rightarrow> bool) \<Rightarrow> 'a list \<Rightarrow> 'a list" where
  "reduce_unique key flag xs = fold (reduce_step key flag) xs []"

definition formatted_projects ::
  "project list \<Rightarrow> (project_member \<times> project option) list \<Rightarrow> calendar_project list" where
  "formatted_projects ownedProjects memberProjects =
     map (\<lambda>p. \<lparr>cp_project = p, cp_role = ''owner'', isOwner = True\<rparr>) ownedProjects
     @ List.map_filter
         (\<lambda>(m, pr). map_option (\<lambda>p. \<lparr>cp_project = p, cp_role = role m, isOwner = False\<rparr>) pr)
         memberProjects"

text \<open>
  Assignments of the user with the embedded task \<open>tasks:task_id (...)\<close>, kept when the
  task exists and belongs to a visible project.
\<close>

definition cal_assigned_tasks ::
  "store \<Rightarrow> int \<Rightarrow> string list \<Rightarrow> (task_assignment \<times> task option) list" where
  "cal_assigned_tasks db uid allProjectUuids =
     filter (\<lambda>(a, tk). case tk of None \<Rightarrow> False | Some t \<Rightarrow> t_project_uuid t \<in> set allProjectUuids)
       (map (\<lambda>a. (a, find (\<lambda>t. task_id t = a_task_id a) (tasks db)))
          (filter (\<lambda>a. a_user_id a = uid) (task_assignments db)))"

definition cal_project_tasks :: "store \<Rightarrow> string list \<Rightarrow> (int \<times> int) option \<Rightarrow> task list" where
  "cal_project_tasks db allProjectUuids w =
     filter (\<lambda>t. case w of
                   None \<Rightarrow> True
                 | Some (s, e) \<Rightarrow>
                     sql_gte (due_date t) s \<and> sql_lte (due_date t) e \<and> due_date t \<noteq> None)
       (tasks_in db allProjectUuids)"

definition formatted_assigned_tasks ::
  "(string \<rightharpoonup> project_summary) \<Rightarrow> (task_assignment \<times> task option) list \<Rightarrow> calendar_task list" where
  "formatted_assigned_tasks projectsMap assignedTasks =
     List.map_filter
       (\<lambda>(a, tk). map_option
          (\<lambda>t. \<lparr>ct_task = t, ct_projects = projectsMap (t_project_uuid t),
                ct_assigned_at = Some (assigned_at a), isAssigned = True\<rparr>) tk)
       assignedTasks"

definition formatted_project_tasks ::
  "(string \<rightharpoonup> project_summary) \<Rightarrow> task list \<Rightarrow> calendar_task list" where
  "formatted_project_tasks projectsMap projectTasks =
     map (\<lambda>t. \<lparr>ct_task = t, ct_projects = projectsMap (t_project_uuid t),
               ct_assigned_at = None, isAssigned = False\<rparr>) projectTasks"

definition cp_uuid :: "calendar_project \<Rightarrow> string" where
  "cp_uuid x = project_uuid (cp_project x)"

definition ct_id :: "calendar_task \<Rightarrow> int" where
  "ct_id x = task_id (ct_task x)"

definition getCalendarData ::
  "store \<Rightarrow> faults \<Rightarrow> clerk_user option \<Rightarrow> int option \<Rightarrow> int option
     \<Rightarrow> http_error + calendar_data" where
  "getCalendarData db fails u start_q end_q =
     (case u of
        None \<Rightarrow> Inl (HttpError 401 ''Unauthorized'')
      | Some cu \<Rightarrow>
          if userId cu = 0 \<or> userEmail cu = [] then Inl (HttpError 401 ''Unauthorized'')
          else
            let uid = userId cu; w = date_window start_q end_q in
            if fails CalOwnedProjects then Inl (HttpError 500 ''Failed to fetch owned projects'')
            else if fails CalMemberProjects
            then Inl (HttpError 500 ''Failed to fetch member projects'')
            else
              let ownedProjects = cal_owned_projects db uid w;
                  memberProjects = cal_member_projects db uid;
                  allProjectUuids = calendar_visibility db uid w in
              if allProjectUuids = [] then Inr empty_calendar
              else if fails CalAssignedTasks
              then Inl (HttpError 500 ''Failed to fetch assigned tasks'')
              else
                let assignedTasks = cal_assigned_tasks db uid allProjectUuids in
                if fails CalProjectTasks
                then Inl (HttpError 500 ''Failed to fetch project tasks'')
                else
                  let projectTasks = cal_project_tasks db allProjectUuids w;
                      projectsMap =
                        projects_map (ownedProjects @ List.map_filter snd memberProjects);
                      uniqueProjects =
                        reduce_unique cp_uuid isOwner
                          (formatted_projects ownedProjects memberProjects);
                      formattedAssignedTasks =
                        formatted_assigned_tasks projectsMap assignedTasks;
                      uniqueTasks =
                        reduce_unique ct_id isAssigned
                          (formattedAssignedTasks
                           @ formatted_project_tasks projectsMap projectTasks)
                  in Inr
                    \<lparr>cal_projects = uniqueProjects,
                     cal_tasks = uniqueTasks,
                     sum_totalProjects = length uniqueProjects,
                     sum_ownedProjects = length ownedProjects,
                     sum_memberProjects = length memberProjects,
                     sum_totalTasks = length uniqueTasks,
                     sum_assignedTasks = length formattedAssignedTasks\<rparr>)"

section \<open>Handlers that write\<close>

text \<open>
  A writing handler returns its reply, the store it leaves, and the writes and mail
  dispatches it issued, in order. A write is recorded when the call is made, also
  when the store then answers with an error.
\<close>

datatype effect =
    InsertProject project
  | InsertMembers "project_member list"
  | DeleteProjects "string list"
  | SendInvites "string list"

record 'a outcome =
  reply :: "http_error + 'a"
  store_after :: store
  issued :: "effect list"

text \<open>\<open>.single()\<close>: the row when exactly one matches, otherwise no data.\<close>

definition single :: "bool \<Rightarrow> 'a list \<Rightarrow> 'a option" where
  "single failed rows = (if failed then None else case rows of [r] \<Rightarrow> Some r | _ \<Rightarrow> None)"

text \<open>
  \<^verbatim>\<open>Array.from(new Set(memberEmails.map(e => e.trim().toLowerCase()).filter(Boolean)))\<close>
\<close>

definition clean_emails :: "js_strings \<Rightarrow> string list \<Rightarrow> string list" where
  "clean_emails js memberEmails =
     new_Set (filter (\<lambda>e. e \<noteq> []) (map (\<lambda>e. toLowerCase js (trim js e)) memberEmails))"

text \<open>\<open>store.delete().in("project_uuid", uuids)\<close> on the projects table.\<close>

definition delete_projects :: "store \<Rightarrow> string list \<Rightarrow> store" where
  "delete_projects db uuids =
     db\<lparr>projects := filter (\<lambda>p. project_uuid p \<notin> set uuids) (projects db)\<rparr>"

definition insert_members :: "store \<Rightarrow> project_member list \<Rightarrow> store" where
  "insert_members db rows = db\<lparr>project_members := project_members db @ rows\<rparr>"

text \<open>\<open>map.get(email) || null\<close> on a map from e-mail to user id.\<close>

definition get_or_null :: "(string \<rightharpoonup> int) \<Rightarrow> string \<Rightarrow> int option" where
  "get_or_null m e = (case m e of None \<Rightarrow> None | Some n \<Rightarrow> if n = 0 then None else Some n)"

subsection \<open>\<open>bulkAddProjectMembers\<close>\<close>

record bulk_reply =
  membersAdded :: nat
  emailsSent :: nat
  members :: "project_member list"

text \<open>
  The permission gate shared by the member handlers: the owner, or a member row of
  the user whose role is \<open>admin\<close> or \<open>owner\<close>.
\<close>

definition may_manage_members :: "store \<Rightarrow> faults \<Rightarrow> project \<Rightarrow> string \<Rightarrow> int \<Rightarrow> bool" where
  "may_manage_members db fails p projectUuid uid =
     (if owner_id p = uid then True
      else case single (fails BulkMemberRole)
                  (filter (\<lambda>m. m_project_uuid m = projectUuid \<and> m_user_id m = Some uid)
                     (project_members db)) of
             None \<Rightarrow> False
           | Some m \<Rightarrow> role m = ''admin'' \<or> role m = ''owner'')"

definition existing_email_set :: "js_strings \<Rightarrow> store \<Rightarrow> bool \<Rightarrow> string \<Rightarrow> string list" where
  "existing_email_set js db failed projectUuid =
     new_Set (map (\<lambda>m. toLowerCase js (member_email m))
                (if failed then []
                 else filter (\<lambda>m. m_project_uuid m = projectUuid) (project_members db)))"

definition user_by_email :: "js_strings \<Rightarrow> user list \<Rightarrow> (string \<rightharpoonup> int)" where
  "user_by_email js us =
     fold (\<lambda>u m. if email u \<noteq> [] then m(toLowerCase js (email u) \<mapsto> user_id u) else m) us Map.empty"

definition bulkAddProjectMembers ::
  "js_strings \<Rightarrow> store \<Rightarrow> faults \<Rightarrow> clerk_user option \<Rightarrow> string \<Rightarrow> string list option \<Rightarrow> string option
     \<Rightarrow> bulk_reply outcome" where
  "bulkAddProjectMembers js db fails u projectUuid memberEmails defaultRole =
     (let stop = (\<lambda>e. \<lparr>reply = Inl e, store_after = db, issued = []\<rparr>) in
      case authenticated u of
        None \<Rightarrow> stop (HttpError 401 ''User not authenticated'')
      | Some uid \<Rightarrow>
          if memberEmails = None \<or> memberEmails = Some []
          then stop (HttpError 400 ''memberEmails array is required and must not be empty'')
          else
            case single (fails BulkProject)
                   (filter (\<lambda>p. project_uuid p = projectUuid) (projects db)) of
              None \<Rightarrow> stop (HttpError 404 ''Project not found'')
            | Some p \<Rightarrow>
                if \<not> may_manage_members db fails p projectUuid uid
                then stop (HttpError 403
                       ''Access denied. Only project owners and admins can add members.'')
                else
                  let cleanEmails = clean_emails js (the memberEmails) in
                  if cleanEmails = []
                  then stop (HttpError 400 ''No valid email addresses provided'')
                  else
                    let existingEmailSet =
                          existing_email_set js db (fails BulkExistingMembers) projectUuid;
                        newEmails = filter (\<lambda>e. e \<notin> set existingEmailSet) cleanEmails in
                    if newEmails = []
                    then stop (HttpError 409
                           ''All provided emails are already members of this project'')
                    else
                      let userByEmail =
                            user_by_email js (users_by_email db (fails BulkUsers) newEmails);
                          role' = (case defaultRole of
                                     None \<Rightarrow> ''viewer''
                                   | Some r \<Rightarrow> if r = [] then ''viewer'' else r);
                          memberRows =
                            map (\<lambda>e. \<lparr>m_project_id = None, m_project_uuid = projectUuid,
                                      m_user_id = get_or_null userByEmail e,
                                      member_email = e, role = role'\<rparr>) newEmails in
                      if fails BulkInsertMembers
                      then \<lparr>reply = Inl (StoreError 400), store_after = db,
                            issued = [InsertMembers memberRows]\<rparr>
                      else
                        let emailsToInvite = filter (\<lambda>e. userByEmail e = None) newEmails in
                        \<lparr>reply = Inr \<lparr>membersAdded = length memberRows,
                                       emailsSent = length emailsToInvite,
                                       members = memberRows\<rparr>,
                         store_after = insert_members db memberRows,
                         issued = InsertMembers memberRows
                                  # (if emailsToInvite = [] then []
                                     else [SendInvites emailsToInvite])\<rparr>)"

subsection \<open>\<open>deleteProject\<close>\<close>

text \<open>
  \<open>singleUuid\<close> is the path parameter, \<open>projectIds\<close> the optional array of the body:
  a non-empty array makes the request a bulk delete.
\<close>

definition uuids_to_delete :: "string \<Rightarrow> string list option \<Rightarrow> string list" where
  "uuids_to_delete singleUuid projectIds =
     (case projectIds of
        None \<Rightarrow> [singleUuid]
      | Some ids \<Rightarrow> if ids = [] then [singleUuid] else ids)"

definition deleteProject ::
  "store \<Rightarrow> faults \<Rightarrow> clerk_user option \<Rightarrow> string \<Rightarrow> string list option \<Rightarrow> nat outcome" where
  "deleteProject db fails u singleUuid projectIds =
     (let stop = (\<lambda>e. \<lparr>reply = Inl e, store_after = db, issued = []\<rparr>) in
      case authenticated u of
        None \<Rightarrow> stop (HttpError 401 ''User not authenticated'')
      | Some uid \<Rightarrow>
          let uuidsToDelete = uuids_to_delete singleUuid projectIds in
          if fails DelFetchProjects then stop (StoreError 400)
          else
            let unauthorizedProjects =
                  filter (\<lambda>p. owner_id p \<noteq> uid) (projects_in db uuidsToDelete) in
            if unauthorizedProjects \<noteq> []
            then stop (HttpError 403 ''Access denied. You can only delete projects you own.'')
            else if fails DelDeleteProjects
            then \<lparr>reply = Inl (StoreError 400), store_after = db,
                  issued = [DeleteProjects uuidsToDelete]\<rparr>
            else \<lparr>reply = Inr (length uuidsToDelete),
                  store_after = delete_projects db uuidsToDelete,
                  issued = [DeleteProjects uuidsToDelete]\<rparr>)"

subsection \<open>\<open>createProject\<close>\<close>

text \<open>
  The body's \<open>memberEmails\<close> is \<open>None\<close> unless it is an array of strings. The rest
  of the body is handed to the store as it is; \<open>row\<close> is the project row the store
  creates from it, with the id and the UUID the store generates. The handler does not
  look at the requesting user before the mail step.
\<close>

record create_reply =
  cr_project :: project
  cr_membersAdded :: "nat option"
  cr_emailsSent :: "nat option"

definition found_by_email :: "js_strings \<Rightarrow> user list \<Rightarrow> (string \<rightharpoonup> int)" where
  "found_by_email js us =
     fold (\<lambda>u m. if email u \<noteq> [] \<and> user_id u \<noteq> 0
                  then m(toLowerCase js (email u) \<mapsto> user_id u) else m) us Map.empty"

text \<open>
  The compensating delete
  \<^verbatim>\<open>await supabase.from("projects").delete().eq("project_uuid", projectUuid);\<close>
  whose result is not read.
\<close>

definition compensate :: "store \<Rightarrow> faults \<Rightarrow> string \<Rightarrow> store" where
  "compensate db fails projectUuid =
     (if fails CrCompensate then db else delete_projects db [projectUuid])"

definition createProject ::
  "js_strings \<Rightarrow> store \<Rightarrow> faults \<Rightarrow> project \<Rightarrow> string list option \<Rightarrow> create_reply outcome" where
  "createProject js db fails row memberEmailsRaw =
     (let memberEmails = map_option (clean_emails js) memberEmailsRaw in
      if fails CrInsertProject
      then \<lparr>reply = Inl (StoreError 400), store_after = db, issued = [InsertProject row]\<rparr>
      else
        let db1 = db\<lparr>projects := projects db @ [row]\<rparr>;
            projectUuid = project_uuid row in
        if projectUuid = []
        then \<lparr>reply = Inl (HttpError 500 ''Project created but missing project_uuid''),
              store_after = db1, issued = [InsertProject row]\<rparr>
        else if memberEmails = None \<or> memberEmails = Some []
        then \<lparr>reply = Inr \<lparr>cr_project = row, cr_membersAdded = None, cr_emailsSent = None\<rparr>,
              store_after = db1, issued = [InsertProject row]\<rparr>
        else
          let emails = the memberEmails in
          if fails CrUsers
          then \<lparr>reply = Inl (StoreError 400),
                store_after = compensate db1 fails projectUuid,
                issued = [InsertProject row, DeleteProjects [projectUuid]]\<rparr>
          else
            let foundByEmail = found_by_email js (users_by_email db1 False emails);
                memberRows =
                  map (\<lambda>e. \<lparr>m_project_id = Some (project_id row), m_project_uuid = projectUuid,
                            m_user_id = get_or_null foundByEmail e,
                            member_email = e, role = ''viewer''\<rparr>) emails in
            if fails CrInsertMembers
            then \<lparr>reply = Inl (StoreError 400),
                  store_after = compensate db1 fails projectUuid,
                  issued = [InsertProject row, InsertMembers memberRows,
                            DeleteProjects [projectUuid]]\<rparr>
            else
              \<lparr>reply = Inr \<lparr>cr_project = row, cr_membersAdded = Some (length memberRows),
                             cr_emailsSent = Some (length emails)\<rparr>,
               store_after = insert_members db1 memberRows,
               issued = [InsertProject row, InsertMembers memberRows, SendInvites emails]\<rparr>)"

section \<open>What the specification says, and the store it assumes\<close>

text \<open>
  The visibility set in the specification's words: the UUIDs of the projects the user
  owns, together with the UUIDs carried by the member rows that name the user by id.
\<close>

definition owned_uuids :: "store \<Rightarrow> int \<Rightarrow> string set" where
  "owned_uuids db uid = project_uuid ` {p \<in> set (projects db). owner_id p = uid}"

definition member_uuids :: "store \<Rightarrow> int \<Rightarrow> string set" where
  "member_uuids db uid =
     m_project_uuid ` {m \<in> set (project_members db). m_user_id m = Some uid}"

definition spec_visibility_set :: "store \<Rightarrow> int \<Rightarrow> string set" where
  "spec_visibility_set db uid = owned_uuids db uid \<union> member_uuids db uid"

text \<open>Referential integrity: every member row belongs to a project of the store.\<close>

definition members_reference_projects :: "store \<Rightarrow> bool" where
  "members_reference_projects db =
     (\<forall>m \<in> set (project_members db). \<exists>p \<in> set (projects db). project_uuid p = m_project_uuid m)"

text \<open>
  The overlap test of the calendar window:
  \<open>project.end_date >= start_date AND project.start_date <= end_date\<close>.
\<close>

definition overlaps :: "(int \<times> int) option \<Rightarrow> project \<Rightarrow> bool" where
  "overlaps w p =
     (case w of
        None \<Rightarrow> True
      | Some (s, e) \<Rightarrow> sql_gte (end_date p) s \<and> sql_lte (start_date p) e)"

definition owned_uuids_in :: "store \<Rightarrow> int \<Rightarrow> (int \<times> int) option \<Rightarrow> string set" where
  "owned_uuids_in db uid w =
     project_uuid ` {p \<in> set (projects db). owner_id p = uid \<and> overlaps w p}"

text \<open>
  Identifiers are never 0 and registered e-mail addresses are stored in lower case
  (the data model's canonical form).
\<close>

definition store_wf :: "js_strings \<Rightarrow> store \<Rightarrow> bool" where
  "store_wf js db =
     ((\<forall>u \<in> set (users db). user_id u \<noteq> 0 \<and> toLowerCase js (email u) = email u)
      \<and> (\<forall>p \<in> set (projects db). owner_id p \<noteq> 0)
      \<and> (\<forall>m \<in> set (project_members db). m_user_id m \<noteq> Some 0))"

text \<open>
  The team-size estimate in the specification's words, over the visible projects
  \<open>V\<close> and their member rows \<open>M\<close>: the known user ids are the owners, the members
  with a user id, and the registered users whose address matches an invited address
  without regard to case; the other invited addresses count one each.
\<close>

definition spec_known_user_ids :: "js_strings \<Rightarrow> store \<Rightarrow> project list \<Rightarrow> project_member list \<Rightarrow> int set" where
  "spec_known_user_ids js db V M =
     owner_id ` set V
     \<union> {n. \<exists>m \<in> set M. m_user_id m = Some n}
     \<union> {n. \<exists>u \<in> set (users db). n = user_id u \<and>
              (\<exists>m \<in> set M. member_email m \<noteq> [] \<and>
                 toLowerCase js (email u) = toLowerCase js (member_email m))}"

definition spec_unregistered_emails :: "js_strings \<Rightarrow> store \<Rightarrow> project_member list \<Rightarrow> string set" where
  "spec_unregistered_emails js db M =
     {e. \<exists>m \<in> set M. member_email m \<noteq> [] \<and> e = toLowerCase js (member_email m)}
     - {e. \<exists>u \<in> set (users db). e = toLowerCase js (email u)}"

definition spec_team_size :: "js_strings \<Rightarrow> store \<Rightarrow> project list \<Rightarrow> project_member list \<Rightarrow> nat" where
  "spec_team_size js db V M =
     card (spec_known_user_ids js db V M) + card (spec_unregistered_emails js db M)"

text \<open>
  The store reads of the dashboard whose error is checked. The errors of the user
  lookup by e-mail and of the read for the task histogram are not read by the handler.
\<close>

definition dash_reads_ok :: "faults \<Rightarrow> bool" where
  "dash_reads_ok fails =
     (\<not> fails DashOwnedProjects \<and> \<not> fails DashMemberProjects \<and> \<not> fails DashAllProjects
      \<and> \<not> fails DashAllMembers \<and> \<not> fails DashRecentTasks \<and> \<not> fails DashUpcomingTasks)"

text \<open>Today's calendar date on the server: the local day of the instant \<open>now\<close>.\<close>

definition local_today :: "clock \<Rightarrow> int" where
  "local_today clk = (now clk + tz clk) div day_ms"

text \<open>
  Completed, in the specification's words: an end date strictly before today; a
  project without an end date is not completed.
\<close>

definition ended_before :: "int \<Rightarrow> project \<Rightarrow> bool" where
  "ended_before today p = (case end_date p of None \<Rightarrow> False | Some e \<Rightarrow> e < today)"

text \<open>
  The addresses of a bulk request that are new to the project: the cleaned list
  without the addresses, in lower case, of the project's member rows.
\<close>

definition new_emails :: "js_strings \<Rightarrow> store \<Rightarrow> string \<Rightarrow> string list \<Rightarrow> string list" where
  "new_emails js db projectUuid es =
     filter (\<lambda>e. e \<notin> (\<lambda>m. toLowerCase js (member_email m))
                       ` {m \<in> set (project_members db). m_project_uuid m = projectUuid})
       (clean_emails js es)"

section \<open>Example stores and requests\<close>

definition no_faults :: faults where
  "no_faults = (\<lambda>c. False)"

definition mk_project :: "int \<Rightarrow> string \<Rightarrow> int \<Rightarrow> int option \<Rightarrow> int option \<Rightarrow> project" where
  "mk_project i uuid owner s e =
     \<lparr>project_id = i, project_uuid = uuid, name = ''Project'', description = None,
      status = ''On track'', priority = ''Medium'', start_date = s, end_date = e,
      owner_id = owner, created_at = 0\<rparr>"

definition mk_member :: "string \<Rightarrow> int option \<Rightarrow> string \<Rightarrow> project_member" where
  "mk_member uuid uid e =
     \<lparr>m_project_id = None, m_project_uuid = uuid, m_user_id = uid, member_email = e,
      role = ''viewer''\<rparr>"

definition mk_task :: "int \<Rightarrow> string \<Rightarrow> int option \<Rightarrow> task" where
  "mk_task i uuid due =
     \<lparr>task_id = i, t_project_uuid = uuid, title = ''Task'', t_description = None,
      t_status = ''On track'', t_priority = ''Medium'', due_date = due, t_created_at = 0\<rparr>"

definition window_store :: store where
  "window_store =
     \<lparr>users = [\<lparr>user_id = 1, email = ''u@x.com''\<rparr>],
      projects = [mk_project 1 ''p1'' 1 (Some 1) (Some 5)],
      project_members = [], tasks = [], task_assignments = []\<rparr>"

definition both_store :: store where
  "both_store =
     \<lparr>users = [\<lparr>user_id = 1, email = ''u@x.com''\<rparr>, \<lparr>user_id = 2, email = ''v@x.com''\<rparr>],
      projects = [mk_project 1 ''p1'' 1 (Some 1) (Some 5), mk_project 2 ''p2'' 2 (Some 1) (Some 5)],
      project_members = [mk_member ''p1'' (Some 1) ''u@x.com'', mk_member ''p2'' (Some 1) ''u@x.com''],
      tasks = [], task_assignments = []\<rparr>"

definition user1 :: clerk_user where
  "user1 = \<lparr>userId = 1, userEmail = ''u@x.com''\<rparr>"

definition noon_utc :: clock where
  "noon_utc = \<lparr>now = 100 * day_ms + 43200000, tz = 0\<rparr>"

definition team_store :: store where
  "team_store =
     \<lparr>users = [\<lparr>user_id = 1, email = ''u@x.com''\<rparr>, \<lparr>user_id = 2, email = ''v@x.com''\<rparr>],
      projects = [mk_project 1 ''p1'' 1 (Some 1) (Some 5)],
      project_members = [mk_member ''p1'' (Some 2) ''v@x.com'', mk_member ''p1'' None ''New@x.com''],
      tasks = [], task_assignments = []\<rparr>"

text \<open>
  User 1 registered with a mixed-case address, as the authentication middleware stores
  the identity provider's address unchanged; the same address invited in lower case.
\<close>

definition mixed_case_store :: store where
  "mixed_case_store =
     \<lparr>users = [\<lparr>user_id = 1, email = ''U@x.com''\<rparr>],
      projects = [mk_project 1 ''p1'' 1 (Some 1) (Some 200)],
      project_members = [mk_member ''p1'' None ''u@x.com''],
      tasks = [], task_assignments = []\<rparr>"


definition ending_today_store :: store where
  "ending_today_store =
     \<lparr>users = [\<lparr>user_id = 1, email = ''u@x.com''\<rparr>],
      projects = [mk_project 1 ''p1'' 1 (Some 1) (Some 100)],
      project_members = [], tasks = [], task_assignments = []\<rparr>"

text \<open>A server at UTC-05:00, at 10:00 local time on day 100 (15:00 UTC).\<close>

definition boston_morning :: clock where
  "boston_morning = \<lparr>now = 100 * day_ms + 54000000, tz = - 18000000\<rparr>"

text \<open>
  A server at UTC+05:30, at 10:00 local time on day 100; a task of a visible project
  that was due the day before.
\<close>

definition colombo_morning :: clock where
  "colombo_morning = \<lparr>now = 100 * day_ms + 16200000, tz = 19800000\<rparr>"

definition overdue_store :: store where
  "overdue_store =
     \<lparr>users = [\<lparr>user_id = 1, email = ''u@x.com''\<rparr>],
      projects = [mk_project 1 ''p1'' 1 (Some 1) (Some 200)],
      project_members = [],
      tasks = [mk_task 7 ''p1'' (Some 99)],
      task_assignments = []\<rparr>"

definition calendar_store :: store where
  "calendar_store =
     \<lparr>users = [\<lparr>user_id = 1, email = ''u@x.com''\<rparr>],
      projects = [mk_project 1 ''p1'' 1 (Some 1) (Some 200)],
      project_members = [mk_member ''p1'' (Some 1) ''u@x.com''],
      tasks = [mk_task 7 ''p1'' (Some 3)],
      task_assignments = [\<lparr>a_task_id = 7, a_user_id = 1, assigned_at = 50\<rparr>]\<rparr>"

definition two_owner_store :: store where
  "two_owner_store =
     \<lparr>users = [\<lparr>user_id = 1, email = ''u@x.com''\<rparr>, \<lparr>user_id = 2, email = ''v@x.com''\<rparr>],
      projects = [mk_project 1 ''p1'' 1 (Some 1) (Some 200), mk_project 2 ''p2'' 2 (Some 1) (Some 200)],
      project_members = [], tasks = [], task_assignments = []\<rparr>"

section \<open>Properties\<close>

subsection \<open>Sets as lists\<close>

lemma set_fold_set_add: "set (fold set_add xs acc) = set xs \<union> set acc"
  by (induction xs arbitrary: acc) (auto simp: set_add_def)

lemma distinct_fold_set_add: "distinct acc \<Longrightarrow> distinct (fold set_add xs acc)"
  by (induction xs arbitrary: acc) (auto simp: set_add_def)

lemma set_new_Set: "set (new_Set xs) = set xs"
  by (simp add: new_Set_def set_fold_set_add)

lemma distinct_new_Set: "distinct (new_Set xs)"
  by (simp add: new_Set_def distinct_fold_set_add)

subsection \<open>The visibility sets\<close>

lemma set_dashboard_visibility:
  "set (dashboard_visibility db uid) = spec_visibility_set db uid"
  by (auto simp: dashboard_visibility_def set_new_Set spec_visibility_set_def owned_uuids_def
      member_uuids_def)

lemma find_uuid_Some:
  "p \<in> set ps \<Longrightarrow> \<exists>q. find (\<lambda>p'. project_uuid p' = project_uuid p) ps = Some q \<and> q \<in> set ps \<and> project_uuid q = project_uuid p"
  by (induction ps) auto

lemma set_cal_member_uuids:
  assumes "members_reference_projects db"
  shows "set (List.map_filter (\<lambda>(m, pr). map_option project_uuid pr) (cal_member_projects db uid))
         = member_uuids db uid"
proof (rule set_eqI)
  fix k
  show "k \<in> set (List.map_filter (\<lambda>(m, pr). map_option project_uuid pr) (cal_member_projects db uid))
        \<longleftrightarrow> k \<in> member_uuids db uid"
  proof
    assume "k \<in> set (List.map_filter (\<lambda>(m, pr). map_option project_uuid pr) (cal_member_projects db uid))"
    then obtain m q where m: "m \<in> set (project_members db)" "m_user_id m = Some uid"
      and f: "find (\<lambda>p. project_uuid p = m_project_uuid m) (projects db) = Some q"
      and k: "k = project_uuid q"
      by (auto simp: map_filter_def cal_member_projects_def)
    from f have "project_uuid q = m_project_uuid m"
      by (auto simp: find_Some_iff)
    with m k show "k \<in> member_uuids db uid"
      by (auto simp: member_uuids_def)
  next
    assume "k \<in> member_uuids db uid"
    then obtain m where m: "m \<in> set (project_members db)" "m_user_id m = Some uid"
      and k: "k = m_project_uuid m"
      by (auto simp: member_uuids_def)
    from assms m(1) obtain p where p: "p \<in> set (projects db)" "project_uuid p = m_project_uuid m"
      by (auto simp: members_reference_projects_def)
    from find_uuid_Some[OF p(1)] p(2) obtain q where
      "find (\<lambda>p'. project_uuid p' = m_project_uuid m) (projects db) = Some q"
      "project_uuid q = m_project_uuid m"
      by auto
    with m k show "k \<in> set (List.map_filter (\<lambda>(m, pr). map_option project_uuid pr) (cal_member_projects db uid))"
      by (force simp: map_filter_def cal_member_projects_def)
  qed
qed

lemma set_cal_owned_uuids:
  "set (map project_uuid (cal_owned_projects db uid w)) = owned_uuids_in db uid w"
  by (auto simp: cal_owned_projects_def owned_uuids_in_def overlaps_def split: option.splits)

lemma distinct_dashboard_visibility: "distinct (dashboard_visibility db uid)"
  by (simp add: dashboard_visibility_def distinct_new_Set)

lemma distinct_calendar_visibility: "distinct (calendar_visibility db uid w)"
  by (simp add: calendar_visibility_def distinct_new_Set)

lemma set_calendar_visibility:
  "members_reference_projects db \<Longrightarrow>
   set (calendar_visibility db uid w) = owned_uuids_in db uid w \<union> member_uuids db uid"
  using set_cal_member_uuids[of db uid] set_cal_owned_uuids[of db uid w]
  by (simp add: calendar_visibility_def set_new_Set del: set_map)

text \<open>
  C1 (as amended). The dashboard's visibility set has no duplicates and is the union
  of the UUIDs of the projects the user owns and the UUIDs of the member rows naming
  the user by id. The calendar's visibility set has no duplicates either; in a store
  whose member rows all belong to projects it is the same union when no date window
  is given, and with a window its owned part holds only the owned projects that
  overlap the window.
\<close>

theorem visibility_sets:
  "distinct (dashboard_visibility db uid)
   \<and> set (dashboard_visibility db uid) = spec_visibility_set db uid
   \<and> distinct (calendar_visibility db uid w)
   \<and> (members_reference_projects db \<longrightarrow>
        set (calendar_visibility db uid w) = owned_uuids_in db uid w \<union> member_uuids db uid
        \<and> set (calendar_visibility db uid None) = spec_visibility_set db uid)"
proof -
  have "owned_uuids_in db uid None = owned_uuids db uid"
    by (simp add: owned_uuids_in_def owned_uuids_def overlaps_def)
  then show ?thesis
    by (simp add: set_dashboard_visibility distinct_dashboard_visibility
        distinct_calendar_visibility set_calendar_visibility spec_visibility_set_def)
qed

text \<open>
  C1 as stated fails for the calendar: with a date window, an owned project outside the
  window is not in the visibility set.
\<close>

theorem calendar_window_counterexample:
  "set (calendar_visibility window_store 1 (date_window (Some 10) (Some 20)))
   \<noteq> spec_visibility_set window_store 1"
proof -
  have "calendar_visibility window_store 1 (date_window (Some 10) (Some 20)) = []"
    by (simp add: calendar_visibility_def window_store_def cal_owned_projects_def
        cal_member_projects_def mk_project_def date_window_def sql_gte_def sql_lte_def
        new_Set_def map_filter_def)
  moreover have "''p1'' \<in> spec_visibility_set window_store 1"
    by (simp add: spec_visibility_set_def owned_uuids_def window_store_def mk_project_def image_iff)
  ultimately show ?thesis by auto
qed

theorem visibility_sets_witness:
  "members_reference_projects both_store
   \<and> dashboard_visibility both_store 1 = [''p1'', ''p2'']
   \<and> set (calendar_visibility both_store 1 None) = spec_visibility_set both_store 1"
proof -
  have fk: "members_reference_projects both_store"
    by (simp add: members_reference_projects_def both_store_def mk_project_def mk_member_def)
  have d: "dashboard_visibility both_store 1 = [''p1'', ''p2'']"
    by (simp add: dashboard_visibility_def both_store_def mk_project_def mk_member_def
        new_Set_def set_add_def)
  from visibility_sets[of both_store 1 None] fk
  have "set (calendar_visibility both_store 1 None) = spec_visibility_set both_store 1"
    by blast
  with fk d show ?thesis by blast
qed

subsection \<open>The team-size estimate\<close>

lemma set_fold_cond_add:
  "set (fold (\<lambda>x s. if P x then set_add (g x) s else s) xs acc) = set acc \<union> g ` {x \<in> set xs. P x}"
  by (induction xs arbitrary: acc) (auto simp: set_add_def)

lemma distinct_fold_cond_add:
  "distinct acc \<Longrightarrow> distinct (fold (\<lambda>x s. if P x then set_add (g x) s else s) xs acc)"
  by (induction xs arbitrary: acc) (auto simp: set_add_def)

lemma member_id_step:
  "(\<lambda>m s. case m_user_id m of None \<Rightarrow> s | Some n \<Rightarrow> if n \<noteq> 0 then set_add n s else s)
   = (\<lambda>m s. if (\<exists>n. m_user_id m = Some n \<and> n \<noteq> 0) then set_add (the (m_user_id m)) s else s)"
  by (auto simp: fun_eq_iff split: option.splits)

lemma set_unique_user_ids:
  "set (unique_user_ids V M)
   = {n. n \<noteq> 0 \<and> n \<in> owner_id ` set V} \<union> {n. n \<noteq> 0 \<and> (\<exists>m \<in> set M. m_user_id m = Some n)}"
proof -
  have "set (unique_user_ids V M)
        = ({} \<union> owner_id ` {p \<in> set V. owner_id p \<noteq> 0})
          \<union> (\<lambda>m. the (m_user_id m)) ` {m \<in> set M. \<exists>n. m_user_id m = Some n \<and> n \<noteq> 0}"
    unfolding unique_user_ids_def Let_def member_id_step
    by (simp only: set_fold_cond_add list.set)
  also have "\<dots> = {n. n \<noteq> 0 \<and> n \<in> owner_id ` set V} \<union> {n. n \<noteq> 0 \<and> (\<exists>m \<in> set M. m_user_id m = Some n)}"
  proof -
    have a: "owner_id ` {p \<in> set V. owner_id p \<noteq> 0} = {n. n \<noteq> 0 \<and> n \<in> owner_id ` set V}"
      by auto
    have b: "(\<lambda>m. the (m_user_id m)) ` {m \<in> set M. \<exists>n. m_user_id m = Some n \<and> n \<noteq> 0}
             = {n. n \<noteq> 0 \<and> (\<exists>m \<in> set M. m_user_id m = Some n)}"
    proof (rule set_eqI)
      fix x
      show "x \<in> (\<lambda>m. the (m_user_id m)) ` {m \<in> set M. \<exists>n. m_user_id m = Some n \<and> n \<noteq> 0}
            \<longleftrightarrow> x \<in> {n. n \<noteq> 0 \<and> (\<exists>m \<in> set M. m_user_id m = Some n)}"
      proof
        assume "x \<in> (\<lambda>m. the (m_user_id m)) ` {m \<in> set M. \<exists>n. m_user_id m = Some n \<and> n \<noteq> 0}"
        then obtain m n where "m \<in> set M" "m_user_id m = Some n" "n \<noteq> 0" "x = the (m_user_id m)"
          by blast
        then show "x \<in> {n. n \<noteq> 0 \<and> (\<exists>m \<in> set M. m_user_id m = Some n)}"
          by auto
      next
        assume "x \<in> {n. n \<noteq> 0 \<and> (\<exists>m \<in> set M. m_user_id m = Some n)}"
        then obtain m where m: "m \<in> set M" "m_user_id m = Some x" "x \<noteq> 0"
          by blast
        then have "m \<in> {m \<in> set M. \<exists>n. m_user_id m = Some n \<and> n \<noteq> 0}" "x = the (m_user_id m)"
          by simp_all
        then show "x \<in> (\<lambda>m. the (m_user_id m)) ` {m \<in> set M. \<exists>n. m_user_id m = Some n \<and> n \<noteq> 0}"
          by (rule_tac image_eqI)
      qed
    qed
    show ?thesis by (simp only: a b Un_empty_left)
  qed
  finally show ?thesis .
qed

lemma distinct_unique_user_ids: "distinct (unique_user_ids V M)"
  unfolding unique_user_ids_def Let_def member_id_step
  by (intro distinct_fold_cond_add) simp

lemma set_member_emails:
  "set (member_emails js M) = {e. \<exists>m \<in> set M. member_email m \<noteq> [] \<and> e = toLowerCase js (member_email m)}"
proof -
  have "set (member_emails js M) = {} \<union> (\<lambda>m. toLowerCase js (member_email m)) ` {m \<in> set M. member_email m \<noteq> []}"
    unfolding member_emails_def by (simp only: set_fold_cond_add list.set)
  then show ?thesis by auto
qed

lemma distinct_member_emails: "distinct (member_emails js M)"
  unfolding member_emails_def by (intro distinct_fold_cond_add) simp

lemma team_size_unfold:
  "team_size js db failed V M =
     length (fold (\<lambda>u s. if user_id u \<noteq> 0 then set_add (user_id u) s else s)
               (users_by_email db failed (member_emails js M)) (unique_user_ids V M))
     + length (filter (\<lambda>e. e \<notin> set (new_Set (map (\<lambda>u. toLowerCase js (email u))
                                  (users_by_email db failed (member_emails js M)))))
                 (member_emails js M))"
  by (simp add: team_size_def Let_def users_by_email_def)

lemma team_size_card:
  "team_size js db failed V M =
     card (set (unique_user_ids V M)
           \<union> user_id ` {u \<in> set (users_by_email db failed (member_emails js M)). user_id u \<noteq> 0})
     + card (set (member_emails js M)
             - (\<lambda>u. toLowerCase js (email u)) ` set (users_by_email db failed (member_emails js M)))"
proof -
  let ?U = "users_by_email db failed (member_emails js M)"
  let ?ids = "fold (\<lambda>u s. if user_id u \<noteq> 0 then set_add (user_id u) s else s) ?U
                (unique_user_ids V M)"
  let ?wo = "filter (\<lambda>e. e \<notin> set (new_Set (map (\<lambda>u. toLowerCase js (email u)) ?U)))
               (member_emails js M)"
  have "distinct ?ids"
    by (rule distinct_fold_cond_add) (rule distinct_unique_user_ids)
  then have 1: "length ?ids = card (set ?ids)"
    by (rule distinct_card[symmetric])
  have 2: "set ?ids = set (unique_user_ids V M) \<union> user_id ` {u \<in> set ?U. user_id u \<noteq> 0}"
    by (simp only: set_fold_cond_add)
  have "distinct ?wo"
    by (simp add: distinct_member_emails)
  then have 3: "length ?wo = card (set ?wo)"
    by (rule distinct_card[symmetric])
  have 4: "set ?wo = set (member_emails js M) - (\<lambda>u. toLowerCase js (email u)) ` set ?U"
    by (auto simp: set_new_Set)
  show ?thesis
    unfolding team_size_unfold 1 3 2 4 ..
qed

lemma team_size_spec:
  assumes wf: "store_wf js db"
    and V: "set V \<subseteq> set (projects db)"
    and M: "set M \<subseteq> set (project_members db)"
  shows "team_size js db False V M = spec_team_size js db V M"
proof -
  let ?U = "users_by_email db False (member_emails js M)"
  have U: "set ?U = {u \<in> set (users db). email u \<in> set (member_emails js M)}"
    by (simp add: users_by_email_def)
  have low: "\<And>u. u \<in> set (users db) \<Longrightarrow> toLowerCase js (email u) = email u"
    and uid: "\<And>u. u \<in> set (users db) \<Longrightarrow> user_id u \<noteq> 0"
    using wf by (simp_all add: store_wf_def)
  have own: "\<And>p. p \<in> set V \<Longrightarrow> owner_id p \<noteq> 0"
    using wf V by (auto simp: store_wf_def)
  have mem: "\<And>m. m \<in> set M \<Longrightarrow> m_user_id m \<noteq> Some 0"
    using wf M by (auto simp: store_wf_def)
  have ids: "set (unique_user_ids V M) = owner_id ` set V \<union> {n. \<exists>m \<in> set M. m_user_id m = Some n}"
    unfolding set_unique_user_ids using own mem by (auto; metis)
  have third: "user_id ` {u \<in> set ?U. user_id u \<noteq> 0}
      = {n. \<exists>u \<in> set (users db). n = user_id u \<and>
              (\<exists>m \<in> set M. member_email m \<noteq> [] \<and>
                 toLowerCase js (email u) = toLowerCase js (member_email m))}"
    unfolding U set_member_emails using low uid by auto
  have known: "set (unique_user_ids V M) \<union> user_id ` {u \<in> set ?U. user_id u \<noteq> 0}
      = spec_known_user_ids js db V M"
    unfolding spec_known_user_ids_def ids third ..
  have unreg: "set (member_emails js M) - (\<lambda>u. toLowerCase js (email u)) ` set ?U
      = spec_unregistered_emails js db M"
  proof -
    have "\<And>e. e \<in> set (member_emails js M) \<Longrightarrow>
            (e \<in> (\<lambda>u. toLowerCase js (email u)) ` set ?U)
            = (\<exists>u \<in> set (users db). e = toLowerCase js (email u))"
      unfolding U using low by force
    then show ?thesis
      unfolding spec_unregistered_emails_def set_member_emails[symmetric] by blast
  qed
  show ?thesis
    unfolding team_size_card known unreg spec_team_size_def ..
qed

lemma dt_task_format_task: "map (dt_task \<circ> format_task pm) ts = ts"
  by (induction ts) (simp_all add: format_task_def)

lemma projects_in_Nil: "projects_in db [] = []"
  by (simp add: projects_in_def)

lemma members_in_Nil: "members_in db [] = []"
  by (simp add: members_in_def)

lemma upcoming_tasks_raw_Nil: "upcoming_tasks_raw db clk [] = []"
  by (simp add: upcoming_tasks_raw_def tasks_in_def)

lemma team_size_Nil: "team_size js db failed [] [] = 0"
  by (simp add: team_size_def unique_user_ids_def member_emails_def)

lemma completed_projects_Nil: "completed_projects clk [] = []"
  by (simp add: completed_projects_def)

lemma dashboard_reply:
  assumes "authenticated u = Some uid" and "dash_reads_ok fails"
  shows "\<exists>d. getDashboardData js db fails clk u = Inr d
     \<and> totalProjects d = length (projects_in db (dashboard_visibility db uid))
     \<and> completedProjects d
         = length (completed_projects clk (projects_in db (dashboard_visibility db uid)))
     \<and> totalTeamMembers d
         = team_size js db (fails DashUsersByEmail) (projects_in db (dashboard_visibility db uid))
             (members_in db (dashboard_visibility db uid))
     \<and> map dt_task (upcomingDeadlines d)
         = upcoming_tasks_raw db clk (dashboard_visibility db uid)"
proof (cases "dashboard_visibility db uid = []")
  case True
  with assms have "getDashboardData js db fails clk u = Inr empty_dashboard"
    by (simp add: getDashboardData_def dash_reads_ok_def)
  with True show ?thesis
    by (simp add: empty_dashboard_def projects_in_Nil members_in_Nil upcoming_tasks_raw_Nil
        team_size_Nil completed_projects_Nil)
next
  case False
  with assms show ?thesis
    by (simp add: getDashboardData_def dash_reads_ok_def Let_def dt_task_format_task)
qed

lemma fold_set_add_absorb: "set ys \<subseteq> set acc \<Longrightarrow> fold set_add ys acc = acc"
  by (induction ys arbitrary: acc) (auto simp: set_add_def)

lemma new_Set_append_absorb: "set ys \<subseteq> set xs \<Longrightarrow> new_Set (xs @ ys) = new_Set xs"
  by (simp add: new_Set_def fold_set_add_absorb set_fold_set_add)

lemma dashboard_visibility_insert_members:
  assumes "\<forall>m \<in> set extra. m_project_uuid m \<in> set (dashboard_visibility db uid)"
  shows "dashboard_visibility (insert_members db extra) uid = dashboard_visibility db uid"
proof -
  let ?o = "map project_uuid (filter (\<lambda>p. owner_id p = uid) (projects db))"
  let ?m = "map m_project_uuid (filter (\<lambda>m. m_user_id m = Some uid) (project_members db))"
  let ?e = "map m_project_uuid (filter (\<lambda>m. m_user_id m = Some uid) extra)"
  have "set ?e \<subseteq> set (?o @ ?m)"
    using assms by (auto simp: dashboard_visibility_def set_new_Set)
  then have "new_Set ((?o @ ?m) @ ?e) = new_Set (?o @ ?m)"
    by (rule new_Set_append_absorb)
  then show ?thesis
    by (simp add: dashboard_visibility_def insert_members_def)
qed

lemma finite_spec_known_user_ids: "finite (spec_known_user_ids js db V M)"
proof -
  have "{n. \<exists>m \<in> set M. m_user_id m = Some n} \<subseteq> (\<lambda>m. the (m_user_id m)) ` set M"
    by force
  moreover have "{n. \<exists>u \<in> set (users db). n = user_id u \<and>
              (\<exists>m \<in> set M. member_email m \<noteq> [] \<and>
                 toLowerCase js (email u) = toLowerCase js (member_email m))} \<subseteq> user_id ` set (users db)"
    by blast
  ultimately show ?thesis
    unfolding spec_known_user_ids_def
    by (meson finite_UnI finite_imageI finite_set finite_subset)
qed

lemma finite_spec_unregistered_emails: "finite (spec_unregistered_emails js db M)"
proof -
  have "spec_unregistered_emails js db M \<subseteq> (\<lambda>m. toLowerCase js (member_email m)) ` set M"
    unfolding spec_unregistered_emails_def by blast
  then show ?thesis
    by (meson finite_imageI finite_set finite_subset)
qed

lemma spec_team_size_mono:
  assumes "set M \<subseteq> set M'" and "users db' = users db"
  shows "spec_team_size js db V M \<le> spec_team_size js db' V M'"
proof -
  have "spec_known_user_ids js db V M \<subseteq> spec_known_user_ids js db' V M'"
    unfolding spec_known_user_ids_def assms(2) using assms(1) by blast
  then have 1: "card (spec_known_user_ids js db V M) \<le> card (spec_known_user_ids js db' V M')"
    by (rule card_mono[OF finite_spec_known_user_ids])
  have "spec_unregistered_emails js db M \<subseteq> spec_unregistered_emails js db' M'"
    unfolding spec_unregistered_emails_def assms(2) using assms(1) by blast
  then have 2: "card (spec_unregistered_emails js db M) \<le> card (spec_unregistered_emails js db' M')"
    by (rule card_mono[OF finite_spec_unregistered_emails])
  from 1 2 show ?thesis
    by (simp add: spec_team_size_def)
qed

text \<open>
  Over a store whose ids are non-zero and whose registered addresses are kept in lower
  case, with the reads and the user lookup succeeding, the team size of the dashboard
  is the number of known user ids plus the number of invited addresses no registered
  user has, and it does not decrease when member rows are added to visible projects.
\<close>

lemma team_size_canonical_store:
  assumes wf: "store_wf js db"
    and auth: "authenticated u = Some uid"
    and ok: "dash_reads_ok fails" "\<not> fails DashUsersByEmail"
    and extra: "\<forall>m \<in> set extra. m_project_uuid m \<in> set (dashboard_visibility db uid)
                  \<and> m_user_id m \<noteq> Some 0"
  shows "\<exists>d d'. getDashboardData js db fails clk u = Inr d
     \<and> getDashboardData js (insert_members db extra) fails clk u = Inr d'
     \<and> totalTeamMembers d
         = card (spec_known_user_ids js db (projects_in db (dashboard_visibility db uid))
                   (members_in db (dashboard_visibility db uid)))
           + card (spec_unregistered_emails js db (members_in db (dashboard_visibility db uid)))
     \<and> totalTeamMembers d \<le> totalTeamMembers d'"
proof -
  let ?vis = "dashboard_visibility db uid"
  let ?db' = "insert_members db extra"
  let ?V = "projects_in db ?vis"
  let ?M = "members_in db ?vis"
  let ?M' = "members_in ?db' ?vis"
  from dashboard_reply[OF auth ok(1), of js db clk] obtain d where
    d: "getDashboardData js db fails clk u = Inr d"
       "totalTeamMembers d = team_size js db (fails DashUsersByEmail) ?V ?M"
    by blast
  have vis': "dashboard_visibility ?db' uid = ?vis"
    using extra by (simp add: dashboard_visibility_insert_members)
  have V': "projects_in ?db' ?vis = ?V"
    by (simp add: projects_in_def insert_members_def)
  from dashboard_reply[OF auth ok(1), of js ?db' clk] obtain d' where
    d': "getDashboardData js ?db' fails clk u = Inr d'"
        "totalTeamMembers d' = team_size js ?db' (fails DashUsersByEmail) ?V ?M'"
    unfolding vis' V' by blast
  have wf': "store_wf js ?db'"
    using wf extra by (auto simp: store_wf_def insert_members_def)
  have 1: "team_size js db False ?V ?M = spec_team_size js db ?V ?M"
    by (rule team_size_spec[OF wf]) (auto simp: projects_in_def members_in_def)
  have 2: "team_size js ?db' False ?V ?M' = spec_team_size js ?db' ?V ?M'"
    by (rule team_size_spec[OF wf']) (auto simp: projects_in_def members_in_def insert_members_def)
  have "set ?M \<subseteq> set ?M'"
    by (auto simp: members_in_def insert_members_def)
  then have 3: "spec_team_size js db ?V ?M \<le> spec_team_size js ?db' ?V ?M'"
    by (rule spec_team_size_mono) (simp add: insert_members_def)
  from d d' 1 2 3 ok(2) show ?thesis
    by (simp add: spec_team_size_def)
qed

lemma team_size_example:
  "map_sum id totalTeamMembers
     (getDashboardData ascii_js team_store no_faults noon_utc (Some user1)) = Inr 3"
  by code_simp

text \<open>
  C6: the failing input. User 1 is registered as \<open>U@x.com\<close>, owns \<open>p1\<close>, and \<open>p1\<close>
  lists the address \<open>u@x.com\<close> without a user id. By the claim one person is counted:
  the known user ids are the owner, who is also the registered user whose address
  matches the invited one without regard to case, and no invited address is left
  without a registered user (the store's only project is visible to user 1, so the
  visible projects and their member rows are the whole tables). The dashboard
  reports 2.
\<close>

theorem team_size_mixed_case_bug:
  "map_sum id totalTeamMembers
     (getDashboardData ascii_js mixed_case_store no_faults noon_utc (Some user1)) = Inr 2
   \<and> spec_known_user_ids ascii_js mixed_case_store
         (projects mixed_case_store) (project_members mixed_case_store) = {1}
   \<and> spec_unregistered_emails ascii_js mixed_case_store (project_members mixed_case_store) = {}
   \<and> spec_team_size ascii_js mixed_case_store
         (projects mixed_case_store) (project_members mixed_case_store) = 1"
proof -
  have low: "toLowerCase ascii_js ''U@x.com'' = ''u@x.com''"
    "toLowerCase ascii_js ''u@x.com'' = ''u@x.com''"
    by code_simp+
  have code: "map_sum id totalTeamMembers
      (getDashboardData ascii_js mixed_case_store no_faults noon_utc (Some user1)) = Inr 2"
    by code_simp
  have known: "spec_known_user_ids ascii_js mixed_case_store
      (projects mixed_case_store) (project_members mixed_case_store) = {1}"
    by (auto simp: spec_known_user_ids_def mixed_case_store_def mk_project_def mk_member_def low)
  have unreg: "spec_unregistered_emails ascii_js mixed_case_store
      (project_members mixed_case_store) = {}"
    by (auto simp: spec_unregistered_emails_def mixed_case_store_def mk_member_def low)
  from code known unreg show ?thesis
    by (simp add: spec_team_size_def)
qed

subsection \<open>The member known by e-mail only\<close>




subsection \<open>Completed projects\<close>

lemma setHours0_date:
  assumes "0 \<le> z" and "z < day_ms"
  shows "setHours0 z (e * day_ms) = e * day_ms - z"
proof -
  have "(e * day_ms + z) div day_ms = e"
    using assms by (simp add: day_ms_def)
  then show ?thesis
    by (simp add: setHours0_def)
qed

lemma completed_iff:
  assumes "0 \<le> tz clk" and "tz clk < day_ms" and "end_date p = Some e"
  shows "(setHours0 (tz clk) (newDate (end_date p)) < setHours0 (tz clk) (now clk))
         = (e < local_today clk)"
proof -
  have "setHours0 (tz clk) (newDate (end_date p)) = e * day_ms - tz clk"
    using assms by (simp add: newDate_def setHours0_date)
  moreover have "setHours0 (tz clk) (now clk) = local_today clk * day_ms - tz clk"
    by (simp add: setHours0_def local_today_def)
  ultimately show ?thesis
    by (simp add: day_ms_def)
qed

text \<open>
  On a server whose zone is UTC or east of it, a visible project that has an end date
  is counted in \<open>completedProjects\<close> exactly when that date is before today's date.
\<close>

lemma completed_projects_east_of_utc:
  assumes auth: "authenticated u = Some uid"
    and ok: "dash_reads_ok fails"
    and tz: "0 \<le> tz clk" "tz clk < day_ms"
  shows "\<exists>d. getDashboardData js db fails clk u = Inr d
     \<and> completedProjects d
         = length (completed_projects clk (projects_in db (dashboard_visibility db uid)))
     \<and> (\<forall>p \<in> set (projects_in db (dashboard_visibility db uid)). \<forall>e. end_date p = Some e \<longrightarrow>
           (p \<in> set (completed_projects clk (projects_in db (dashboard_visibility db uid))))
           = (e < local_today clk))
     \<and> ((\<forall>p \<in> set (projects_in db (dashboard_visibility db uid)). end_date p \<noteq> None) \<longrightarrow>
           completedProjects d
           = length (filter (ended_before (local_today clk))
                       (projects_in db (dashboard_visibility db uid))))"
proof -
  let ?V = "projects_in db (dashboard_visibility db uid)"
  from dashboard_reply[OF auth ok, of js db clk] obtain d where
    d: "getDashboardData js db fails clk u = Inr d"
       "completedProjects d = length (completed_projects clk ?V)"
    by blast
  have each: "\<forall>p \<in> set ?V. \<forall>e. end_date p = Some e \<longrightarrow>
      (p \<in> set (completed_projects clk ?V)) = (e < local_today clk)"
  proof (intro ballI allI impI)
    fix p e
    assume "p \<in> set ?V" and "end_date p = Some e"
    then show "(p \<in> set (completed_projects clk ?V)) = (e < local_today clk)"
      using completed_iff[OF tz, of p e] by (simp add: completed_projects_def)
  qed
  have "completed_projects clk ?V = filter (ended_before (local_today clk)) ?V"
    if "\<forall>p \<in> set ?V. end_date p \<noteq> None"
    unfolding completed_projects_def Let_def
  proof (rule filter_cong[OF refl])
    fix p assume "p \<in> set ?V"
    with that obtain e where "end_date p = Some e" by auto
    then show "(setHours0 (tz clk) (newDate (end_date p)) < setHours0 (tz clk) (now clk))
        = ended_before (local_today clk) p"
      using completed_iff[OF tz, of p e] by (simp add: ended_before_def)
  qed
  with d each show ?thesis
    by auto
qed

text \<open>
  C5: the failing input. On a server at UTC-05:00, at 10:00 local time on day 100, the
  user's project ends on day 100: its end date is not before today, and by the claim
  it is not completed. The date-only string is read as midnight UTC, which is the
  evening of day 99 on the server, and \<open>setHours(0, 0, 0, 0)\<close> moves it to the local
  midnight of day 99: the dashboard counts the project as completed.
\<close>

theorem completed_projects_bug:
  "local_today boston_morning = 100
   \<and> \<not> ended_before (local_today boston_morning) (mk_project 1 ''p1'' 1 (Some 1) (Some 100))
   \<and> map_sum id completedProjects
        (getDashboardData ascii_js ending_today_store no_faults boston_morning (Some user1))
     = Inr 1"
  by (simp add: getDashboardData_def authenticated_def user1_def no_faults_def
      dashboard_visibility_def ending_today_store_def mk_project_def new_Set_def
      set_add_def projects_in_def Let_def completed_projects_def boston_morning_def
      setHours0_def newDate_def day_ms_def ended_before_def local_today_def)

subsection \<open>Upcoming deadlines\<close>

text \<open>
  C4: the failing input. The server's today is day 100, and a task due on day 99 is
  among the upcoming deadlines.
\<close>

theorem upcoming_deadlines_bug:
  "local_today colombo_morning = 100
   \<and> map_sum id (map (due_date \<circ> dt_task) \<circ> upcomingDeadlines)
        (getDashboardData ascii_js overdue_store no_faults colombo_morning (Some user1))
     = Inr [Some 99]"
  by (simp add: getDashboardData_def authenticated_def user1_def no_faults_def
      dashboard_visibility_def overdue_store_def mk_project_def mk_task_def new_Set_def
      set_add_def projects_in_def Let_def colombo_morning_def setHours0_def
      day_ms_def local_today_def upcoming_tasks_raw_def tasks_in_def isoDate_def addDays_def
      sql_gte_def sql_lte_def format_task_def)

text \<open>
  What holds of the upcoming deadlines in every zone, and the window when the server
  runs in UTC.
\<close>

lemma upcoming_tasks_raw_props:
  "(\<forall>t \<in> set (upcoming_tasks_raw db clk uuids). \<exists>d. due_date t = Some d
       \<and> isoDate (setHours0 (tz clk) (now clk)) \<le> d \<and> d \<le> isoDate (addDays (now clk) 14)
       \<and> t \<in> set (tasks db) \<and> t_project_uuid t \<in> set uuids)
   \<and> sorted (map due_key (upcoming_tasks_raw db clk uuids))
   \<and> length (upcoming_tasks_raw db clk uuids) \<le> 10"
proof -
  let ?f = "filter (\<lambda>t. sql_lte (due_date t) (isoDate (addDays (now clk) 14))
                       \<and> sql_gte (due_date t) (isoDate (setHours0 (tz clk) (now clk)))
                       \<and> due_date t \<noteq> None) (tasks_in db uuids)"
  have raw: "upcoming_tasks_raw db clk uuids = take 10 (sort_key due_key ?f)"
    by (simp add: upcoming_tasks_raw_def Let_def)
  have "set (upcoming_tasks_raw db clk uuids) \<subseteq> set ?f"
    unfolding raw using set_take_subset[of 10 "sort_key due_key ?f"] by simp
  then have 1: "\<forall>t \<in> set (upcoming_tasks_raw db clk uuids). \<exists>d. due_date t = Some d
       \<and> isoDate (setHours0 (tz clk) (now clk)) \<le> d \<and> d \<le> isoDate (addDays (now clk) 14)
       \<and> t \<in> set (tasks db) \<and> t_project_uuid t \<in> set uuids"
    by (auto simp: sql_gte_def sql_lte_def tasks_in_def)
  have "sorted (map due_key (sort_key due_key ?f))"
    by (rule sorted_sort_key)
  then have 2: "sorted (map due_key (upcoming_tasks_raw db clk uuids))"
    unfolding raw take_map[symmetric] by (rule sorted_wrt_take)
  have 3: "length (upcoming_tasks_raw db clk uuids) \<le> 10"
    unfolding raw by simp
  from 1 2 3 show ?thesis by blast
qed

lemma upcoming_deadlines_utc:
  assumes auth: "authenticated u = Some uid"
    and ok: "dash_reads_ok fails"
    and utc: "tz clk = 0"
  shows "\<exists>d. getDashboardData js db fails clk u = Inr d
     \<and> (\<forall>t \<in> set (map dt_task (upcomingDeadlines d)). \<exists>dd. due_date t = Some dd
           \<and> local_today clk \<le> dd \<and> dd \<le> local_today clk + 14)
     \<and> sorted (map due_key (map dt_task (upcomingDeadlines d)))
     \<and> length (upcomingDeadlines d) \<le> 10"
proof -
  from dashboard_reply[OF auth ok, of js db clk] obtain d where
    d: "getDashboardData js db fails clk u = Inr d"
       "map dt_task (upcomingDeadlines d) = upcoming_tasks_raw db clk (dashboard_visibility db uid)"
    by blast
  have lo: "isoDate (setHours0 (tz clk) (now clk)) = local_today clk"
    using utc by (simp add: isoDate_def setHours0_def local_today_def day_ms_def)
  have hi: "isoDate (addDays (now clk) 14) = local_today clk + 14"
    using utc by (simp add: isoDate_def addDays_def local_today_def day_ms_def)
  have "length (upcomingDeadlines d) = length (map dt_task (upcomingDeadlines d))"
    by simp
  with d upcoming_tasks_raw_props[of db clk "dashboard_visibility db uid"] lo hi
  show ?thesis
    by (metis (no_types, lifting))
qed

subsection \<open>Merging owned and member projects, assigned and project tasks\<close>

lemma findIndex_props:
  "\<exists>x \<in> set xs. P x \<Longrightarrow> findIndex P xs < length xs \<and> P (xs ! findIndex P xs)"
  by (induction xs) (auto simp: findIndex_def)

lemma reduce_step_absent:
  "key x \<notin> key ` set acc \<Longrightarrow> reduce_step key flag x acc = acc @ [x]"
proof -
  assume "key x \<notin> key ` set acc"
  then have "\<forall>p \<in> set acc. key p \<noteq> key x"
    by (metis imageI)
  then have "find (\<lambda>p. key p = key x) acc = None"
    by (simp add: find_None_iff)
  then show ?thesis by (simp add: reduce_step_def)
qed

lemma reduce_step_present:
  assumes "key x \<in> key ` set acc"
  shows "reduce_step key flag x acc
         = (if flag x then acc[findIndex (\<lambda>p. key p = key x) acc := x] else acc)"
proof -
  from assms have "find (\<lambda>p. key p = key x) acc \<noteq> None"
    by (auto simp: find_None_iff)
  then show ?thesis by (auto simp: reduce_step_def)
qed

lemma map_key_reduce_step:
  "map key (reduce_step key flag x acc)
   = (if key x \<in> key ` set acc then map key acc else map key acc @ [key x])"
proof (cases "key x \<in> key ` set acc")
  case False
  then show ?thesis by (simp add: reduce_step_absent)
next
  case True
  then have "\<exists>p \<in> set acc. key p = key x" by auto
  from findIndex_props[OF this]
  have "(map key acc)[findIndex (\<lambda>p. key p = key x) acc := key x] = map key acc"
    by (simp add: list_update_same_conv)
  with True show ?thesis
    by (simp add: reduce_step_present map_update)
qed

lemma set_reduce_step: "set (reduce_step key flag x acc) \<subseteq> insert x (set acc)"
  using set_update_subset_insert[of acc _ x]
  by (cases "key x \<in> key ` set acc") (auto simp: reduce_step_absent reduce_step_present)

lemma reduce_step_keeps_flag:
  assumes "\<forall>y \<in> set acc. key y = k \<longrightarrow> flag y" and "k \<in> key ` set acc"
  shows "\<forall>y \<in> set (reduce_step key flag x acc). key y = k \<longrightarrow> flag y"
proof (cases "key x \<in> key ` set acc")
  case False
  with assms show ?thesis by (auto simp: reduce_step_absent)
next
  case True
  show ?thesis
  proof (cases "flag x")
    case False
    with True assms show ?thesis by (simp add: reduce_step_present)
  next
    case fx: True
    have "set (reduce_step key flag x acc) \<subseteq> insert x (set acc)"
      by (rule set_reduce_step)
    with fx assms(1) show ?thesis by auto
  qed
qed

lemma reduce_step_sets_flag:
  assumes d: "distinct (map key acc)" and fx: "flag x"
  shows "\<forall>y \<in> set (reduce_step key flag x acc). key y = key x \<longrightarrow> flag y"
proof (cases "key x \<in> key ` set acc")
  case False
  then have "\<forall>p \<in> set acc. key p \<noteq> key x"
    by (metis imageI)
  with False fx show ?thesis by (auto simp: reduce_step_absent)
next
  case True
  let ?i = "findIndex (\<lambda>p. key p = key x) acc"
  from True have "\<exists>p \<in> set acc. key p = key x" by auto
  from findIndex_props[OF this] have i: "?i < length acc" "key (acc ! ?i) = key x"
    by simp_all
  show ?thesis
  proof (intro ballI impI)
    fix y
    assume "y \<in> set (reduce_step key flag x acc)" and ky: "key y = key x"
    then have "y \<in> set (acc[?i := x])"
      using True fx by (simp add: reduce_step_present)
    then obtain j where j: "j < length acc" "y = acc[?i := x] ! j"
      by (auto simp: in_set_conv_nth)
    show "flag y"
    proof (cases "j = ?i")
      case True
      with j i(1) fx show ?thesis by simp
    next
      case False
      with j have "y = acc ! j" by simp
      with ky i(2) have "map key acc ! j = map key acc ! ?i"
        using j(1) i(1) by simp
      moreover have "j < length (map key acc)" "?i < length (map key acc)"
        using j(1) i(1) by simp_all
      ultimately have "j = ?i"
        using nth_eq_iff_index_eq[OF d] by blast
      with False show ?thesis by simp
    qed
  qed
qed

lemma map_key_fold_reduce:
  "set (map key (fold (reduce_step key flag) xs acc)) = key ` set acc \<union> key ` set xs"
proof (induction xs arbitrary: acc)
  case Nil
  then show ?case by simp
next
  case (Cons x xs)
  have "key ` set (reduce_step key flag x acc) = insert (key x) (key ` set acc)"
    using map_key_reduce_step[of key flag x acc, THEN arg_cong, of set]
    by (auto split: if_splits)
  with Cons[of "reduce_step key flag x acc"] show ?case by auto
qed

lemma distinct_fold_reduce:
  "distinct (map key acc) \<Longrightarrow> distinct (map key (fold (reduce_step key flag) xs acc))"
proof (induction xs arbitrary: acc)
  case Nil
  then show ?case by simp
next
  case (Cons x xs)
  from Cons.prems have "distinct (map key (reduce_step key flag x acc))"
    by (simp add: map_key_reduce_step)
  from Cons.IH[OF this] show ?case by simp
qed

lemma set_fold_reduce: "set (fold (reduce_step key flag) xs acc) \<subseteq> set acc \<union> set xs"
proof (induction xs arbitrary: acc)
  case Nil
  then show ?case by simp
next
  case (Cons x xs)
  from Cons[of "reduce_step key flag x acc"] set_reduce_step[of key flag x acc]
  show ?case by auto
qed

lemma fold_reduce_keeps_flag:
  "\<forall>y \<in> set acc. key y = k \<longrightarrow> flag y \<Longrightarrow> k \<in> key ` set acc \<Longrightarrow>
   \<forall>y \<in> set (fold (reduce_step key flag) xs acc). key y = k \<longrightarrow> flag y"
proof (induction xs arbitrary: acc)
  case Nil
  then show ?case by simp
next
  case (Cons x xs)
  have 1: "\<forall>y \<in> set (reduce_step key flag x acc). key y = k \<longrightarrow> flag y"
    using Cons.prems by (rule reduce_step_keeps_flag)
  have "key ` set (reduce_step key flag x acc) \<supseteq> key ` set acc"
    using map_key_reduce_step[of key flag x acc, THEN arg_cong, of set]
    by (auto split: if_splits)
  with Cons.prems(2) have 2: "k \<in> key ` set (reduce_step key flag x acc)" by auto
  from Cons.IH[OF 1 2] show ?case by simp
qed

lemma fold_reduce_sets_flag:
  "distinct (map key acc) \<Longrightarrow> \<exists>y \<in> set xs. key y = k \<and> flag y \<Longrightarrow>
   \<forall>y \<in> set (fold (reduce_step key flag) xs acc). key y = k \<longrightarrow> flag y"
proof (induction xs arbitrary: acc)
  case Nil
  then show ?case by simp
next
  case (Cons x xs)
  have d: "distinct (map key (reduce_step key flag x acc))"
    using Cons.prems(1) by (simp add: map_key_reduce_step)
  show ?case
  proof (cases "key x = k \<and> flag x")
    case True
    then have 1: "\<forall>y \<in> set (reduce_step key flag x acc). key y = k \<longrightarrow> flag y"
      using reduce_step_sets_flag[OF Cons.prems(1), of flag x] by simp
    have "key x \<in> set (map key (reduce_step key flag x acc))"
      unfolding map_key_reduce_step by auto
    with True have 2: "k \<in> key ` set (reduce_step key flag x acc)" by simp
    from fold_reduce_keeps_flag[OF 1 2] show ?thesis by simp
  next
    case False
    with Cons.prems(2) have "\<exists>y \<in> set xs. key y = k \<and> flag y" by auto
    from Cons.IH[OF d this] show ?thesis by simp
  qed
qed

lemma filter_key_single:
  "distinct (map f xs) \<Longrightarrow> k \<in> f ` set xs \<Longrightarrow> \<exists>x. filter (\<lambda>y. f y = k) xs = [x]"
proof (induction xs)
  case Nil
  then show ?case by simp
next
  case (Cons a xs)
  show ?case
  proof (cases "f a = k")
    case True
    with Cons.prems(1) have "\<forall>y \<in> set xs. f y \<noteq> k"
      by (metis distinct.simps(2) imageI list.simps(9) set_map)
    then have "filter (\<lambda>y. f y = k) xs = []"
      by (simp add: filter_empty_conv)
    with True show ?thesis by simp
  next
    case False
    with Cons show ?thesis by auto
  qed
qed

lemma reduce_unique_merge:
  assumes "y \<in> set xs" and "flag y"
  shows "\<exists>x. filter (\<lambda>z. key z = key y) (reduce_unique key flag xs) = [x] \<and> flag x \<and> x \<in> set xs"
proof -
  have d: "distinct (map key (reduce_unique key flag xs))"
    unfolding reduce_unique_def by (rule distinct_fold_reduce) simp
  have "key y \<in> key ` set (reduce_unique key flag xs)"
    using map_key_fold_reduce[of key flag xs "[]"] assms(1)
    by (auto simp: reduce_unique_def)
  from filter_key_single[OF d this] obtain x where
    x: "filter (\<lambda>z. key z = key y) (reduce_unique key flag xs) = [x]" by blast
  then have "x \<in> set (filter (\<lambda>z. key z = key y) (reduce_unique key flag xs))" by simp
  then have mem: "x \<in> set (reduce_unique key flag xs)" and kx: "key x = key y" by simp_all
  have "\<forall>z \<in> set (reduce_unique key flag xs). key z = key y \<longrightarrow> flag z"
    unfolding reduce_unique_def
    by (rule fold_reduce_sets_flag) (use assms in auto)
  with mem kx have "flag x" by blast
  moreover have "x \<in> set xs"
    using mem set_fold_reduce[of key flag xs "[]"] by (auto simp: reduce_unique_def)
  ultimately show ?thesis using x by blast
qed

lemma calendar_reply:
  assumes "getCalendarData db fails (Some cu) start_q end_q = Inr d"
  shows "(calendar_visibility db (userId cu) (date_window start_q end_q) = [] \<and> d = empty_calendar)
    \<or> (cal_projects d
          = reduce_unique cp_uuid isOwner
              (formatted_projects (cal_owned_projects db (userId cu) (date_window start_q end_q))
                 (cal_member_projects db (userId cu)))
        \<and> (\<exists>pm. cal_tasks d
              = reduce_unique ct_id isAssigned
                  (formatted_assigned_tasks pm
                     (cal_assigned_tasks db (userId cu)
                        (calendar_visibility db (userId cu) (date_window start_q end_q)))
                   @ formatted_project_tasks pm
                       (cal_project_tasks db
                          (calendar_visibility db (userId cu) (date_window start_q end_q))
                          (date_window start_q end_q)))))"
  using assms
  by (auto simp: getCalendarData_def Let_def split: if_splits)

lemma owned_formatted:
  "p \<in> set ownedProjects \<Longrightarrow>
   \<exists>y \<in> set (formatted_projects ownedProjects memberProjects).
     cp_uuid y = project_uuid p \<and> isOwner y"
  by (force simp: formatted_projects_def cp_uuid_def)

lemma formatted_owner_role:
  "x \<in> set (formatted_projects ownedProjects memberProjects) \<Longrightarrow> isOwner x \<Longrightarrow>
   cp_role x = ''owner''"
  by (auto simp: formatted_projects_def map_filter_def split: option.splits)

lemma assigned_formatted:
  assumes "i \<in> set (List.map_filter (\<lambda>(a, tk). map_option task_id tk) assignedTasks)"
  shows "\<exists>y \<in> set (formatted_assigned_tasks pm assignedTasks @ formatted_project_tasks pm projectTasks).
           ct_id y = i \<and> isAssigned y"
proof -
  from assms obtain a t where at: "(a, Some t) \<in> set assignedTasks" "i = task_id t"
    by (auto simp: map_filter_def)
  let ?y = "\<lparr>ct_task = t, ct_projects = pm (t_project_uuid t),
            ct_assigned_at = Some (assigned_at a), isAssigned = True\<rparr>"
  from at(1) have "?y \<in> set (formatted_assigned_tasks pm assignedTasks)"
    by (force simp: formatted_assigned_tasks_def map_filter_def)
  with at(2) show ?thesis
    by (auto simp: ct_id_def intro!: bexI[of _ ?y])
qed

lemma formatted_assigned_at:
  "x \<in> set (formatted_assigned_tasks pm assignedTasks @ formatted_project_tasks pm projectTasks)
   \<Longrightarrow> isAssigned x \<Longrightarrow> ct_assigned_at x \<noteq> None"
  by (auto simp: formatted_assigned_tasks_def formatted_project_tasks_def map_filter_def
      split: option.splits)

lemma owned_in_calendar_visibility:
  "p \<in> set (cal_owned_projects db uid w) \<Longrightarrow> calendar_visibility db uid w \<noteq> []"
proof -
  assume "p \<in> set (cal_owned_projects db uid w)"
  then have "project_uuid p \<in> set (calendar_visibility db uid w)"
    by (simp add: calendar_visibility_def set_new_Set)
  then show ?thesis by auto
qed

lemma cal_assigned_tasks_Nil: "cal_assigned_tasks db uid [] = []"
  by (auto simp: cal_assigned_tasks_def filter_empty_conv split: option.splits)

text \<open>
  C3. In the calendar reply, a project UUID that occurs in the owned list and in the
  member list has exactly one entry in \<open>projects\<close>, the owned one (\<open>role\<close> "owner",
  \<open>isOwner\<close> true); a task id that occurs among the assigned tasks and among the
  project tasks has exactly one entry in \<open>tasks\<close>, the assigned one, which carries
  \<open>assigned_at\<close>.
\<close>

theorem calendar_merge_precedence:
  assumes reply: "getCalendarData db fails (Some cu) start_q end_q = Inr d"
  shows "(\<forall>k. k \<in> set (map project_uuid
                     (cal_owned_projects db (userId cu) (date_window start_q end_q)))
            \<and> k \<in> set (List.map_filter (\<lambda>(m, pr). map_option project_uuid pr)
                         (cal_member_projects db (userId cu)))
          \<longrightarrow> (\<exists>x. filter (\<lambda>y. cp_uuid y = k) (cal_projects d) = [x]
                 \<and> isOwner x \<and> cp_role x = ''owner''))
    \<and> (\<forall>i. i \<in> set (List.map_filter (\<lambda>(a, tk). map_option task_id tk)
                       (cal_assigned_tasks db (userId cu)
                          (calendar_visibility db (userId cu) (date_window start_q end_q))))
            \<and> i \<in> set (map task_id
                         (cal_project_tasks db
                            (calendar_visibility db (userId cu) (date_window start_q end_q))
                            (date_window start_q end_q)))
          \<longrightarrow> (\<exists>x. filter (\<lambda>y. ct_id y = i) (cal_tasks d) = [x]
                 \<and> isAssigned x \<and> ct_assigned_at x \<noteq> None))"
proof (intro conjI allI impI)
  fix k
  let ?w = "date_window start_q end_q"
  let ?fp = "formatted_projects (cal_owned_projects db (userId cu) ?w)
               (cal_member_projects db (userId cu))"
  assume "k \<in> set (map project_uuid (cal_owned_projects db (userId cu) ?w))
          \<and> k \<in> set (List.map_filter (\<lambda>(m, pr). map_option project_uuid pr)
                       (cal_member_projects db (userId cu)))"
  then obtain p where p: "p \<in> set (cal_owned_projects db (userId cu) ?w)" "k = project_uuid p"
    by auto
  from owned_in_calendar_visibility[OF p(1)] calendar_reply[OF reply]
  have cp: "cal_projects d = reduce_unique cp_uuid isOwner ?fp"
    by blast
  from owned_formatted[OF p(1)] obtain y where
    y: "y \<in> set ?fp" "cp_uuid y = k" "isOwner y"
    using p(2) by blast
  from reduce_unique_merge[of y ?fp isOwner cp_uuid, OF y(1) y(3)] obtain x where
    x: "filter (\<lambda>z. cp_uuid z = cp_uuid y) (reduce_unique cp_uuid isOwner ?fp) = [x]"
       "isOwner x" "x \<in> set ?fp"
    by blast
  from x(2,3) have "cp_role x = ''owner''"
    by (rule formatted_owner_role[rotated])
  with x(1,2) y(2) cp
  show "\<exists>x. filter (\<lambda>y. cp_uuid y = k) (cal_projects d) = [x] \<and> isOwner x \<and> cp_role x = ''owner''"
    by auto
next
  fix i
  let ?w = "date_window start_q end_q"
  let ?vis = "calendar_visibility db (userId cu) ?w"
  let ?at = "cal_assigned_tasks db (userId cu) ?vis"
  let ?pt = "cal_project_tasks db ?vis ?w"
  assume a: "i \<in> set (List.map_filter (\<lambda>(a, tk). map_option task_id tk) ?at)
          \<and> i \<in> set (map task_id ?pt)"
  then have "?vis \<noteq> []"
    by (auto simp: cal_assigned_tasks_Nil map_filter_def)
  with calendar_reply[OF reply] obtain pm where
    ct: "cal_tasks d = reduce_unique ct_id isAssigned
           (formatted_assigned_tasks pm ?at @ formatted_project_tasks pm ?pt)"
    by blast
  let ?all = "formatted_assigned_tasks pm ?at @ formatted_project_tasks pm ?pt"
  from a assigned_formatted[of i ?at pm ?pt] obtain y where
    y: "y \<in> set ?all" "ct_id y = i" "isAssigned y"
    by blast
  from reduce_unique_merge[of y ?all isAssigned ct_id, OF y(1) y(3)] obtain x where
    x: "filter (\<lambda>z. ct_id z = ct_id y) (reduce_unique ct_id isAssigned ?all) = [x]"
       "isAssigned x" "x \<in> set ?all"
    by blast
  from x(3,2) have "ct_assigned_at x \<noteq> None"
    by (rule formatted_assigned_at)
  with x(1,2) y(2) ct
  show "\<exists>x. filter (\<lambda>y. ct_id y = i) (cal_tasks d) = [x] \<and> isAssigned x \<and> ct_assigned_at x \<noteq> None"
    by auto
qed

theorem calendar_merge_precedence_witness:
  "\<exists>d. getCalendarData calendar_store no_faults (Some user1) None None = Inr d
     \<and> (\<exists>x. filter (\<lambda>y. cp_uuid y = ''p1'') (cal_projects d) = [x]
            \<and> isOwner x \<and> cp_role x = ''owner'')
     \<and> (\<exists>x. filter (\<lambda>y. ct_id y = 7) (cal_tasks d) = [x]
            \<and> isAssigned x \<and> ct_assigned_at x \<noteq> None)"
proof -
  have vis: "calendar_visibility calendar_store 1 None = [''p1'']"
    by (simp add: calendar_visibility_def cal_owned_projects_def cal_member_projects_def
        calendar_store_def mk_project_def mk_member_def map_filter_def new_Set_def set_add_def)
  have "\<exists>d. getCalendarData calendar_store no_faults (Some user1) None None = Inr d"
    by (simp add: getCalendarData_def user1_def no_faults_def Let_def date_window_def vis)
  then obtain d where d: "getCalendarData calendar_store no_faults (Some user1) None None = Inr d"
    by blast
  have p: "''p1'' \<in> set (map project_uuid
                     (cal_owned_projects calendar_store (userId user1) (date_window None None)))
      \<and> ''p1'' \<in> set (List.map_filter (\<lambda>(m, pr). map_option project_uuid pr)
                         (cal_member_projects calendar_store (userId user1)))"
    by (simp add: cal_owned_projects_def cal_member_projects_def calendar_store_def
        mk_project_def mk_member_def map_filter_def user1_def date_window_def)
  have t: "7 \<in> set (List.map_filter (\<lambda>(a, tk). map_option task_id tk)
                       (cal_assigned_tasks calendar_store (userId user1)
                          (calendar_visibility calendar_store (userId user1) (date_window None None))))
      \<and> 7 \<in> set (map task_id
                    (cal_project_tasks calendar_store
                       (calendar_visibility calendar_store (userId user1) (date_window None None))
                       (date_window None None)))"
    using vis
    by (simp add: user1_def date_window_def cal_assigned_tasks_def cal_project_tasks_def
        tasks_in_def calendar_store_def mk_task_def map_filter_def)
  from calendar_merge_precedence[OF d] p t d show ?thesis
    by blast
qed

subsection \<open>Deleting projects\<close>

text \<open>
  C8. When the ownership read succeeds and a requested UUID belongs to a project of
  another owner, the delete request is answered 403, the store is unchanged and no
  delete is issued, whatever else was requested.
\<close>

theorem bulk_delete_all_or_nothing:
  assumes auth: "authenticated u = Some uid"
    and fetch: "\<not> fails DelFetchProjects"
    and other: "\<exists>p \<in> set (projects db).
                  project_uuid p \<in> set (uuids_to_delete singleUuid projectIds) \<and> owner_id p \<noteq> uid"
  shows "reply (deleteProject db fails u singleUuid projectIds)
           = Inl (HttpError 403 ''Access denied. You can only delete projects you own.'')
     \<and> store_after (deleteProject db fails u singleUuid projectIds) = db
     \<and> issued (deleteProject db fails u singleUuid projectIds) = []"
proof -
  from other have "filter (\<lambda>p. owner_id p \<noteq> uid)
      (projects_in db (uuids_to_delete singleUuid projectIds)) \<noteq> []"
    by (auto simp: filter_empty_conv projects_in_def)
  with auth fetch show ?thesis
    by (simp add: deleteProject_def Let_def)
qed

theorem bulk_delete_all_or_nothing_witness:
  "reply (deleteProject two_owner_store no_faults (Some user1) ''p1'' (Some [''p1'', ''p2'']))
     = Inl (HttpError 403 ''Access denied. You can only delete projects you own.'')
   \<and> store_after (deleteProject two_owner_store no_faults (Some user1) ''p1'' (Some [''p1'', ''p2'']))
     = two_owner_store
   \<and> issued (deleteProject two_owner_store no_faults (Some user1) ''p1'' (Some [''p1'', ''p2''])) = []"
proof -
  have auth: "authenticated (Some user1) = Some 1"
    by (simp add: authenticated_def user1_def)
  have fetch: "\<not> no_faults DelFetchProjects"
    by (simp add: no_faults_def)
  have other: "\<exists>p \<in> set (projects two_owner_store).
      project_uuid p \<in> set (uuids_to_delete ''p1'' (Some [''p1'', ''p2''])) \<and> owner_id p \<noteq> 1"
    by (simp add: two_owner_store_def mk_project_def uuids_to_delete_def)
  from bulk_delete_all_or_nothing[of "Some user1" 1 no_faults two_owner_store "''p1''"
      "Some [''p1'', ''p2'']", OF auth fetch other]
  show ?thesis .
qed

text \<open>
  C10. A bulk delete in which every requested UUID that exists belongs to the user
  succeeds when the store carries out its two calls: UUIDs of no project raise no
  error, the projects with a requested UUID are gone, and \<open>deletedCount\<close> is the
  number of requested UUIDs.
\<close>

theorem bulk_delete_count:
  assumes auth: "authenticated u = Some uid"
    and calls: "\<not> fails DelFetchProjects" "\<not> fails DelDeleteProjects"
    and bulk: "projectIds = Some ids" "ids \<noteq> []"
    and owned: "\<forall>p \<in> set (projects db). project_uuid p \<in> set ids \<longrightarrow> owner_id p = uid"
  shows "reply (deleteProject db fails u singleUuid projectIds) = Inr (length ids)
     \<and> issued (deleteProject db fails u singleUuid projectIds) = [DeleteProjects ids]
     \<and> projects (store_after (deleteProject db fails u singleUuid projectIds))
         = filter (\<lambda>p. project_uuid p \<notin> set ids) (projects db)"
proof -
  have u: "uuids_to_delete singleUuid projectIds = ids"
    using bulk by (simp add: uuids_to_delete_def)
  from owned have "filter (\<lambda>p. owner_id p \<noteq> uid) (projects_in db ids) = []"
    by (auto simp: filter_empty_conv projects_in_def)
  with auth calls u show ?thesis
    by (simp add: deleteProject_def Let_def delete_projects_def)
qed

theorem bulk_delete_count_witness:
  "reply (deleteProject two_owner_store no_faults (Some user1) ''p1'' (Some [''p1'', ''ghost'']))
     = Inr 2
   \<and> length (projects two_owner_store)
       - length (projects (store_after
           (deleteProject two_owner_store no_faults (Some user1) ''p1'' (Some [''p1'', ''ghost'']))))
     = 1"
proof -
  have auth: "authenticated (Some user1) = Some 1"
    by (simp add: authenticated_def user1_def)
  have calls: "\<not> no_faults DelFetchProjects" "\<not> no_faults DelDeleteProjects"
    by (simp_all add: no_faults_def)
  have owned: "\<forall>p \<in> set (projects two_owner_store).
      project_uuid p \<in> set [''p1'', ''ghost''] \<longrightarrow> owner_id p = 1"
    by (simp add: two_owner_store_def mk_project_def)
  from bulk_delete_count[of "Some user1" 1 no_faults "Some [''p1'', ''ghost'']" "[''p1'', ''ghost'']"
      two_owner_store "''p1''", OF auth calls refl _ owned]
  show ?thesis
    by (simp add: two_owner_store_def mk_project_def)
qed

subsection \<open>Compensation in \<open>createProject\<close>\<close>

text \<open>
  C9. In \<open>createProject\<close> with member e-mails, when the project row has been created
  and the user lookup or the insert of the member rows returns a store error, the
  reply is that error, the last call issued before it is the delete of the created
  row, and, when the store carries that delete out, no project row with the created
  UUID is left.
\<close>

theorem create_project_compensation:
  assumes created: "\<not> fails CrInsertProject" "project_uuid row \<noteq> []"
    and emails: "memberEmailsRaw = Some es" "clean_emails js es \<noteq> []"
    and failure: "fails CrUsers \<or> fails CrInsertMembers"
  shows "reply (createProject js db fails row memberEmailsRaw) = Inl (StoreError 400)
     \<and> hd (issued (createProject js db fails row memberEmailsRaw)) = InsertProject row
     \<and> last (issued (createProject js db fails row memberEmailsRaw))
         = DeleteProjects [project_uuid row]
     \<and> (\<not> fails CrCompensate \<longrightarrow>
          (\<forall>p \<in> set (projects (store_after (createProject js db fails row memberEmailsRaw))).
             project_uuid p \<noteq> project_uuid row))"
  using assms
  by (auto simp: createProject_def Let_def compensate_def delete_projects_def)

theorem create_project_compensation_witness:
  "reply (createProject ascii_js two_owner_store (\<lambda>c. c = CrInsertMembers)
            (mk_project 3 ''p3'' 1 (Some 1) (Some 5)) (Some [''a@x.com'']))
     = Inl (StoreError 400)
   \<and> last (issued (createProject ascii_js two_owner_store (\<lambda>c. c = CrInsertMembers)
            (mk_project 3 ''p3'' 1 (Some 1) (Some 5)) (Some [''a@x.com''])))
     = DeleteProjects [''p3'']
   \<and> ''p3'' \<notin> set (map project_uuid
        (projects (store_after (createProject ascii_js two_owner_store (\<lambda>c. c = CrInsertMembers)
            (mk_project 3 ''p3'' 1 (Some 1) (Some 5)) (Some [''a@x.com''])))))"
proof -
  let ?f = "\<lambda>c. c = CrInsertMembers"
  let ?row = "mk_project 3 ''p3'' 1 (Some 1) (Some 5)"
  have created: "\<not> ?f CrInsertProject" "project_uuid ?row \<noteq> []"
    by (simp_all add: mk_project_def)
  have ce: "clean_emails ascii_js [''a@x.com''] \<noteq> []"
    by code_simp
  have failure: "?f CrUsers \<or> ?f CrInsertMembers"
    by simp
  have comp: "\<not> ?f CrCompensate"
    by simp
  from create_project_compensation[of ?f ?row "Some [''a@x.com'']" "[''a@x.com'']" ascii_js
      two_owner_store,
      OF created refl ce failure] comp
  show ?thesis
    by (auto simp: mk_project_def)
qed

subsection \<open>Adding members in bulk\<close>

lemma clean_emails_props:
  "distinct (clean_emails js es)
   \<and> set (clean_emails js es) = (\<lambda>e. toLowerCase js (trim js e)) ` set es - {[]}"
  by (auto simp: clean_emails_def distinct_new_Set set_new_Set)

text \<open>
  C7 as stated fails: a request whose only entry is blank leaves nothing to insert
  and is answered 400, not 409.
\<close>

theorem blank_emails_counterexample:
  "reply (bulkAddProjectMembers ascii_js two_owner_store no_faults (Some user1) ''p1'' (Some [''  '']) None)
   = Inl (HttpError 400 ''No valid email addresses provided'')"
proof -
  have "clean_emails ascii_js [''  ''] = []"
    by code_simp
  then show ?thesis
    by (simp add: bulkAddProjectMembers_def authenticated_def user1_def no_faults_def
        two_owner_store_def mk_project_def single_def may_manage_members_def Let_def)
qed

lemma user_by_email_fold:
  "fold (\<lambda>u m. if email u \<noteq> [] then m(toLowerCase js (email u) \<mapsto> user_id u) else m) us m0 e
     = Some n \<Longrightarrow>
   m0 e = Some n \<or> (\<exists>u \<in> set us. user_id u = n \<and> toLowerCase js (email u) = e)"
proof (induction us arbitrary: m0)
  case Nil
  then show ?case by simp
next
  case (Cons a us)
  from Cons.IH[OF Cons.prems[simplified]] show ?case
    by (auto split: if_splits)
qed

lemma user_by_email_sound:
  "get_or_null (user_by_email js (users_by_email db failed emails)) e = Some n \<Longrightarrow>
   \<exists>u \<in> set (users db). user_id u = n \<and> toLowerCase js (email u) = e"
proof -
  assume "get_or_null (user_by_email js (users_by_email db failed emails)) e = Some n"
  then have "user_by_email js (users_by_email db failed emails) e = Some n"
    by (auto simp: get_or_null_def split: option.splits if_splits)
  from user_by_email_fold[OF this[unfolded user_by_email_def]]
  show ?thesis
    by (auto simp: users_by_email_def split: if_splits)
qed

text \<open>
  C7 (as amended). For a bulk member-add request that passes authentication, finds
  its project and passes the permission gate, with the read of the existing members
  and the insert succeeding: the input list is trimmed, lower-cased, cleared of
  entries that are empty after trimming, and deduplicated; if nothing is left the
  reply is 400 and nothing is inserted; otherwise the addresses already among the
  project's members are removed, and if none is left the reply is 409 and nothing is
  inserted; otherwise the member table afterwards is the table before followed by
  exactly one row per remaining address, each for this project, with the requested
  role (\<open>viewer\<close> by default) and with a user id only of a registered user of that
  address, and no other table changes.
\<close>

theorem bulk_add_members:
  assumes auth: "authenticated u = Some uid"
    and req: "memberEmails = Some es" "es \<noteq> []"
    and proj: "single (fails BulkProject)
                 (filter (\<lambda>p. project_uuid p = projectUuid) (projects db)) = Some p"
    and perm: "may_manage_members db fails p projectUuid uid"
    and calls: "\<not> fails BulkExistingMembers" "\<not> fails BulkInsertMembers"
  shows "distinct (clean_emails js es)
     \<and> set (clean_emails js es) = (\<lambda>e. toLowerCase js (trim js e)) ` set es - {[]}
     \<and> (clean_emails js es = [] \<longrightarrow>
          reply (bulkAddProjectMembers js db fails u projectUuid memberEmails defaultRole)
            = Inl (HttpError 400 ''No valid email addresses provided'')
          \<and> store_after (bulkAddProjectMembers js db fails u projectUuid memberEmails defaultRole) = db
          \<and> issued (bulkAddProjectMembers js db fails u projectUuid memberEmails defaultRole) = [])
     \<and> (clean_emails js es \<noteq> [] \<and> new_emails js db projectUuid es = [] \<longrightarrow>
          reply (bulkAddProjectMembers js db fails u projectUuid memberEmails defaultRole)
            = Inl (HttpError 409 ''All provided emails are already members of this project'')
          \<and> store_after (bulkAddProjectMembers js db fails u projectUuid memberEmails defaultRole) = db
          \<and> issued (bulkAddProjectMembers js db fails u projectUuid memberEmails defaultRole) = [])
     \<and> (new_emails js db projectUuid es \<noteq> [] \<longrightarrow>
          (\<exists>rows.
             store_after (bulkAddProjectMembers js db fails u projectUuid memberEmails defaultRole)
               = db\<lparr>project_members := project_members db @ rows\<rparr>
             \<and> map member_email rows = new_emails js db projectUuid es
             \<and> (\<forall>m \<in> set rows.
                   m_project_uuid m = projectUuid
                   \<and> role m = (case defaultRole of
                                 None \<Rightarrow> ''viewer''
                               | Some r \<Rightarrow> if r = [] then ''viewer'' else r)
                   \<and> (\<forall>n. m_user_id m = Some n \<longrightarrow>
                         (\<exists>x \<in> set (users db).
                            user_id x = n \<and> toLowerCase js (email x) = member_email m)))
             \<and> hd (issued (bulkAddProjectMembers js db fails u projectUuid memberEmails defaultRole))
                 = InsertMembers rows
             \<and> map_sum id membersAdded
                 (reply (bulkAddProjectMembers js db fails u projectUuid memberEmails defaultRole))
                 = Inr (length (new_emails js db projectUuid es))))"
proof -
  let ?r = "bulkAddProjectMembers js db fails u projectUuid memberEmails defaultRole"
  let ?new = "new_emails js db projectUuid es"
  let ?role = "case defaultRole of None \<Rightarrow> ''viewer'' | Some r \<Rightarrow> if r = [] then ''viewer'' else r"
  let ?ube = "user_by_email js (users_by_email db (fails BulkUsers) ?new)"
  let ?rows = "map (\<lambda>e. \<lparr>m_project_id = None, m_project_uuid = projectUuid,
                         m_user_id = get_or_null ?ube e, member_email = e, role = ?role\<rparr>) ?new"
  have ex: "set (existing_email_set js db (fails BulkExistingMembers) projectUuid)
            = (\<lambda>m. toLowerCase js (member_email m))
                ` {m \<in> set (project_members db). m_project_uuid m = projectUuid}"
    using calls(1) by (auto simp: existing_email_set_def set_new_Set)
  have new: "filter (\<lambda>e. e \<notin> set (existing_email_set js db (fails BulkExistingMembers) projectUuid))
               (clean_emails js es) = ?new"
    unfolding ex new_emails_def ..
  have ne: "?new \<noteq> [] \<Longrightarrow> clean_emails js es \<noteq> []"
    by (auto simp: new_emails_def)
  have 1: "clean_emails js es = [] \<Longrightarrow>
      reply ?r = Inl (HttpError 400 ''No valid email addresses provided'')
      \<and> store_after ?r = db \<and> issued ?r = []"
    using auth req proj perm by (simp add: bulkAddProjectMembers_def Let_def)
  have 2: "clean_emails js es \<noteq> [] \<Longrightarrow> ?new = [] \<Longrightarrow>
      reply ?r = Inl (HttpError 409 ''All provided emails are already members of this project'')
      \<and> store_after ?r = db \<and> issued ?r = []"
    using auth req proj perm by (simp add: bulkAddProjectMembers_def Let_def new)
  have rows: "map member_email ?rows = ?new"
    by (simp add: comp_def)
  have each: "\<forall>m \<in> set ?rows. m_project_uuid m = projectUuid \<and> role m = ?role
      \<and> (\<forall>n. m_user_id m = Some n \<longrightarrow>
            (\<exists>x \<in> set (users db). user_id x = n \<and> toLowerCase js (email x) = member_email m))"
    using user_by_email_sound[of js db "fails BulkUsers" ?new] by auto
  have 3: "?new \<noteq> [] \<Longrightarrow>
      store_after ?r = db\<lparr>project_members := project_members db @ ?rows\<rparr>
      \<and> hd (issued ?r) = InsertMembers ?rows
      \<and> map_sum id membersAdded (reply ?r) = Inr (length ?new)"
    using auth req proj perm calls(2) ne
    by (simp add: bulkAddProjectMembers_def Let_def new insert_members_def)
  from clean_emails_props[of js es] 1 2 3 rows each show ?thesis
    by blast
qed

theorem bulk_add_members_witness:
  "project_members
     (store_after (bulkAddProjectMembers ascii_js two_owner_store no_faults (Some user1) ''p1''
                     (Some [''a@x.com'', ''a@x.com'', ''B@x.com'']) None))
     = [mk_member ''p1'' None ''a@x.com'', mk_member ''p1'' None ''b@x.com'']
   \<and> (\<exists>rows.
         store_after (bulkAddProjectMembers ascii_js two_owner_store no_faults (Some user1) ''p1''
                        (Some [''a@x.com'', ''a@x.com'', ''B@x.com'']) None)
           = two_owner_store\<lparr>project_members := project_members two_owner_store @ rows\<rparr>
         \<and> map member_email rows = [''a@x.com'', ''b@x.com''])"
proof -
  let ?r = "bulkAddProjectMembers ascii_js two_owner_store no_faults (Some user1) ''p1''
              (Some [''a@x.com'', ''a@x.com'', ''B@x.com'']) None"
  have auth: "authenticated (Some user1) = Some 1"
    by (simp add: authenticated_def user1_def)
  have proj: "single (no_faults BulkProject)
      (filter (\<lambda>p. project_uuid p = ''p1'') (projects two_owner_store))
      = Some (mk_project 1 ''p1'' 1 (Some 1) (Some 200))"
    by (simp add: single_def no_faults_def two_owner_store_def mk_project_def)
  have perm: "may_manage_members two_owner_store no_faults
      (mk_project 1 ''p1'' 1 (Some 1) (Some 200)) ''p1'' 1"
    by (simp add: may_manage_members_def mk_project_def)
  have calls: "\<not> no_faults BulkExistingMembers" "\<not> no_faults BulkInsertMembers"
    by (simp_all add: no_faults_def)
  have ce: "clean_emails ascii_js [''a@x.com'', ''a@x.com'', ''B@x.com''] = [''a@x.com'', ''b@x.com'']"
    by code_simp
  have new: "new_emails ascii_js two_owner_store ''p1'' [''a@x.com'', ''a@x.com'', ''B@x.com'']
      = [''a@x.com'', ''b@x.com'']"
    by (simp add: new_emails_def ce two_owner_store_def)
  have table: "project_members (store_after ?r)
      = [mk_member ''p1'' None ''a@x.com'', mk_member ''p1'' None ''b@x.com'']"
    by code_simp
  have "\<exists>rows. store_after ?r
           = two_owner_store\<lparr>project_members := project_members two_owner_store @ rows\<rparr>
         \<and> map member_email rows = [''a@x.com'', ''b@x.com'']"
    using bulk_add_members[where js = ascii_js and db = two_owner_store and fails = no_faults
        and u = "Some user1" and uid = 1 and projectUuid = "''p1''"
        and memberEmails = "Some [''a@x.com'', ''a@x.com'', ''B@x.com'']"
        and es = "[''a@x.com'', ''a@x.com'', ''B@x.com'']"
        and p = "mk_project 1 ''p1'' 1 (Some 1) (Some 200)" and defaultRole = None,
        OF auth refl _ proj perm calls]
    unfolding new by auto
  with table show ?thesis
    by blast
qed

end
